theory Spec2Isabelle
  imports Complex_Main
begin

section \<open>Python values, exceptions and the state the program acts on\<close>

text \<open>
  The program is \<^verbatim>\<open>src/imgurup/__init__.py\<close> (Python 2): class \<^verbatim>\<open>Imgur\<close> with the
  methods of its command-line subclass \<^verbatim>\<open>CLIImgur\<close> where a method is overridden.

  A decoded JSON value is a \<open>json\<close>; \<open>JNull\<close> is Python's \<^verbatim>\<open>None\<close>. A \<^verbatim>\<open>dict\<close> is an
  association list whose first binding of a key is the dict's entry and whose order is
  the dict's iteration order. Strings are byte strings, as Python 2's \<^verbatim>\<open>str\<close>.
\<close>

datatype json =
    JNull
  | JBool bool
  | JNum int
  | JStr string
  | JArr "json list"
  | JObj "(string \<times> json) list"

type_synonym dict = "(string \<times> json) list"

text \<open>
  Every exception the modelled code can raise. \<open>SystemExit msg\<close> is the exit of
  \<^verbatim>\<open>show_error_and_exit(msg)\<close>: the message is logged, then \<^verbatim>\<open>sys.exit(1)\<close>; the bare
  \<^verbatim>\<open>sys.exit(1)\<close> of a cancelled dialog is \<open>SystemExit []\<close>.
\<close>

datatype exn =
    KeyError string
  | TypeError
  | ValueError string
  | IndexError
  | IOError
  | AttributeError
  | NoSectionError
  | NoOptionError
  | ParsingError
  | InterpolationError
  | SystemExit string

datatype body = NoBody | Form dict | Raw string

record request =
  req_method :: string
  req_url :: string
  req_body :: body
  req_headers :: "(string \<times> string) list"

text \<open>
  \<^verbatim>\<open>SafeConfigParser\<close> of Python 2.7. The parser's state is its \<^verbatim>\<open>_defaults\<close> and
  \<^verbatim>\<open>_sections\<close> dicts. A config file is absent, or one that \<^verbatim>\<open>read\<close> refuses (no section
  header before the first option, or a line that is no option), or one that the parser
  reads as given defaults and sections.
\<close>

record ini =
  defaults :: "string \<rightharpoonup> string"
  sections :: "string \<rightharpoonup> (string \<rightharpoonup> string)"

datatype config_state = Absent | Malformed | Parsed ini

datatype io_event =
    ConfigRead
  | ConfigWrite
  | Sent request
  | Opened string
  | ReadAll string
  | Printed string

record imgur =
  client_id :: string
  client_secret :: string
  access_token :: json
  refresh_token :: json
  config_file :: config_state
  config_writable :: bool
  log :: "io_event list"

datatype file_state = Missing | Unreadable | Content string

text \<open>
  What the program does not decide: the server's reply to the requests sent so far, what
  the user types, the files on disk, and the library functions \<^verbatim>\<open>mimetypes.guess_type\<close>,
  \<^verbatim>\<open>random.choice\<close> and \<^verbatim>\<open>str\<close> on a list or dict.
\<close>

record env =
  server :: "request list \<Rightarrow> exn + dict"
  pin_typed :: string
  path_typed :: string
  number_typed :: int
  disk :: "string \<Rightarrow> file_state"
  guess_type :: "string \<Rightarrow> string option"
  random_choice :: "nat \<Rightarrow> char"
  repr_container :: "json \<Rightarrow> string"

subsection \<open>Statements that may raise\<close>

type_synonym ('s, 'a) prog = "'s \<Rightarrow> (exn + 'a) \<times> 's"

definition ret :: "'a \<Rightarrow> ('s, 'a) prog" where
  "ret x s = (Inr x, s)"

definition raise :: "exn \<Rightarrow> ('s, 'a) prog" where
  "raise e s = (Inl e, s)"

definition pure :: "exn + 'a \<Rightarrow> ('s, 'a) prog" where
  "pure r s = (r, s)"

definition bnd :: "('s, 'a) prog \<Rightarrow> ('a \<Rightarrow> ('s, 'b) prog) \<Rightarrow> ('s, 'b) prog" where
  "bnd m k s = (case m s of (Inl e, s') \<Rightarrow> (Inl e, s') | (Inr x, s') \<Rightarrow> k x s')"

definition gets :: "('s \<Rightarrow> 'a) \<Rightarrow> ('s, 'a) prog" where
  "gets f s = (Inr (f s), s)"

definition modify :: "('s \<Rightarrow> 's) \<Rightarrow> ('s, unit) prog" where
  "modify f s = (Inr (), f s)"

definition emit :: "io_event \<Rightarrow> (imgur, unit) prog" where
  "emit e s = (Inr (), s\<lparr>log := log s @ [e]\<rparr>)"

subsection \<open>Built-ins\<close>

fun truthy :: "json \<Rightarrow> bool" where
  "truthy JNull = False"
| "truthy (JBool b) = b"
| "truthy (JNum n) = (n \<noteq> 0)"
| "truthy (JStr s) = (s \<noteq> [])"
| "truthy (JArr xs) = (xs \<noteq> [])"
| "truthy (JObj kvs) = (kvs \<noteq> [])"

definition getitem :: "(string \<times> 'v) list \<Rightarrow> string \<Rightarrow> exn + 'v" where
  "getitem d k = (case map_of d k of None \<Rightarrow> Inl (KeyError k) | Some v \<Rightarrow> Inr v)"

fun subscript :: "json \<Rightarrow> string \<Rightarrow> exn + json" where
  "subscript (JObj d) k = getitem d k"
| "subscript v k = Inl TypeError"

fun setitem :: "(string \<times> 'v) list \<Rightarrow> string \<Rightarrow> 'v \<Rightarrow> (string \<times> 'v) list" where
  "setitem [] k v = [(k, v)]"
| "setitem ((k', v') # d) k v = (if k' = k then (k, v) # d else (k', v') # setitem d k v)"

fun join :: "string \<Rightarrow> string list \<Rightarrow> string" where
  "join sep [] = []"
| "join sep [x] = x"
| "join sep (x # y # ys) = x @ sep @ join sep (y # ys)"

text \<open>
  \<^verbatim>\<open>xs[i]\<close> on a list: an index from \<open>-len\<close> to \<open>-1\<close> counts from the end, an index
  outside \<open>-len .. len - 1\<close> raises \<^verbatim>\<open>IndexError\<close>.
\<close>

definition py_index :: "'a list \<Rightarrow> int \<Rightarrow> exn + 'a" where
  "py_index xs i =
     (if 0 \<le> i \<and> i < int (length xs) then Inr (xs ! nat i)
      else if i < 0 \<and> - int (length xs) \<le> i then Inr (xs ! nat (int (length xs) + i))
      else Inl IndexError)"

fun iterate :: "json \<Rightarrow> exn + json list" where
  "iterate (JArr xs) = Inr xs"
| "iterate (JObj d) = Inr (map (\<lambda>kv. JStr (fst kv)) d)"
| "iterate (JStr s) = Inr (map (\<lambda>c. JStr [c]) s)"
| "iterate v = Inl TypeError"

definition digit_char :: "nat \<Rightarrow> char" where
  "digit_char n = ''0123456789'' ! n"

fun str_nat :: "nat \<Rightarrow> string" where
  "str_nat n = (if n < 10 then [digit_char n] else str_nat (n div 10) @ [digit_char (n mod 10)])"

declare str_nat.simps [simp del]

definition str_int :: "int \<Rightarrow> string" where
  "str_int i = (if i < 0 then CHR ''-'' # str_nat (nat (- i)) else str_nat (nat i))"

definition py_str :: "env \<Rightarrow> json \<Rightarrow> string" where
  "py_str E v =
     (case v of
        JNull \<Rightarrow> ''None''
      | JBool b \<Rightarrow> (if b then ''True'' else ''False'')
      | JNum n \<Rightarrow> str_int n
      | JStr s \<Rightarrow> s
      | _ \<Rightarrow> repr_container E v)"

section \<open>Class Imgur\<close>

definition show_error_and_exit :: "string \<Rightarrow> ('s, 'a) prog" where
  "show_error_and_exit msg = raise (SystemExit msg)"

definition is_success :: "dict \<Rightarrow> exn + bool" where
  "is_success response =
     (case map_of response ''success'' of
        None \<Rightarrow> Inr True
      | Some v \<Rightarrow>
          if \<not> truthy v then
            (case getitem response ''data'' of
               Inl e \<Rightarrow> Inl e
             | Inr d \<Rightarrow> (case subscript d ''error'' of Inl e \<Rightarrow> Inl e | Inr m \<Rightarrow> Inr False))
          else Inr True)"

subsection \<open>The config file\<close>

definition is_space :: "char \<Rightarrow> bool" where
  "is_space c = (c \<in> {CHR '' '', CHR 0x09, CHR 0x0A, CHR 0x0B, CHR 0x0C, CHR 0x0D})"

definition strip :: "string \<Rightarrow> string" where
  "strip x = rev (dropWhile is_space (rev (dropWhile is_space x)))"

definition lower :: "string \<Rightarrow> string" where
  "lower x =
     map (\<lambda>c. case map_of (zip ''ABCDEFGHIJKLMNOPQRSTUVWXYZ'' ''abcdefghijklmnopqrstuvwxyz'') c of
                None \<Rightarrow> c | Some l \<Rightarrow> l) x"

fun split_lines :: "string \<Rightarrow> string list" where
  "split_lines [] = [[]]"
| "split_lines (c # cs) =
     (if c = CHR 0x0A then [] # split_lines cs
      else (case split_lines cs of [] \<Rightarrow> [[c]] | l # ls \<Rightarrow> (c # l) # ls))"

text \<open>
  The match of the regular expression \<^verbatim>\<open>%\(([^)]+)\)s\<close> at a \<^verbatim>\<open>%(\<close>: given the text
  after \<^verbatim>\<open>%(\<close>, the name and the text after the match.
\<close>

definition var_ref :: "string \<Rightarrow> (string \<times> string) option" where
  "var_ref r =
     (let name = takeWhile (\<lambda>c. c \<noteq> CHR '')'') r;
          after = dropWhile (\<lambda>c. c \<noteq> CHR '')'') r
      in if name \<noteq> [] \<and> take 2 after = '')s'' then Some (name, drop 2 after) else None)"

text \<open>
  \<^verbatim>\<open>_interpolate_some\<close>: \<^verbatim>\<open>%%\<close> is a percent sign, \<^verbatim>\<open>%(name)s\<close> is the value of the
  option \<^verbatim>\<open>name\<close>, interpolated in turn one level deeper, and any other \<^verbatim>\<open>%\<close> is an
  error, as is a depth above 10. \<^verbatim>\<open>set_tokens_using_config\<close> catches every exception of
  \<^verbatim>\<open>get\<close>, so the errors of interpolation are one exception here.
\<close>

function interpolate_some :: "nat \<Rightarrow> (string \<Rightarrow> string option) \<Rightarrow> string \<Rightarrow> exn + string" where
  "interpolate_some depth vars rest =
     (if depth > 10 then Inl InterpolationError
      else case rest of
        [] \<Rightarrow> Inr []
      | c # cs \<Rightarrow>
          if c \<noteq> CHR ''%'' then
            (case interpolate_some depth vars cs of
               Inl e \<Rightarrow> Inl e | Inr out \<Rightarrow> Inr (c # out))
          else if take 1 cs = ''%'' then
            (case interpolate_some depth vars (drop 1 cs) of
               Inl e \<Rightarrow> Inl e | Inr out \<Rightarrow> Inr (CHR ''%'' # out))
          else if take 1 cs = ''('' then
            (case var_ref (drop 1 cs) of
               None \<Rightarrow> Inl InterpolationError
             | Some (name, rest') \<Rightarrow>
                 (case vars (lower name) of
                    None \<Rightarrow> Inl InterpolationError
                  | Some v \<Rightarrow>
                      (case (if CHR ''%'' \<in> set v then interpolate_some (depth + 1) vars v
                             else Inr v) of
                         Inl e \<Rightarrow> Inl e
                       | Inr x \<Rightarrow>
                           (case interpolate_some depth vars rest' of
                              Inl e \<Rightarrow> Inl e | Inr out \<Rightarrow> Inr (x @ out)))))
          else Inl InterpolationError)"
  by pat_completeness auto
termination
proof (relation "measures [\<lambda>(depth, vars, rest). 11 - depth, \<lambda>(depth, vars, rest). length rest]")
  show "wf (measures [\<lambda>(depth, vars, rest). 11 - depth, \<lambda>(depth, vars, rest). length rest])"
    by simp
next
  fix depth :: nat and vars :: "string \<Rightarrow> string option" and rest x21 x22 x2 x y
  assume "rest = x21 # x22" "var_ref (drop 1 x22) = Some x2" "(x, y) = x2"
  then have "length y \<le> length (drop 1 x22)"
    using length_dropWhile_le [of "\<lambda>c. c \<noteq> CHR '')''" "drop 1 x22"]
    by (auto simp add: var_ref_def Let_def split: if_splits)
  then have "length y < length rest" using \<open>rest = x21 # x22\<close> by simp
  then show "((depth, vars, y), depth, vars, rest)
     \<in> measures [\<lambda>(depth, vars, rest). 11 - depth, \<lambda>(depth, vars, rest). length rest]"
    by simp
qed auto

declare interpolate_some.simps [simp del]

text \<open>
  The check of \<^verbatim>\<open>SafeConfigParser.set\<close>: with every \<^verbatim>\<open>%%\<close> and then every
  \<^verbatim>\<open>%(name)s\<close> removed, no percent sign may be left.
\<close>

fun drop_pairs :: "string \<Rightarrow> string" where
  "drop_pairs [] = []"
| "drop_pairs [c] = [c]"
| "drop_pairs (c # d # cs) =
     (if c = CHR ''%'' \<and> d = CHR ''%'' then drop_pairs cs else c # drop_pairs (d # cs))"

function drop_refs :: "string \<Rightarrow> string" where
  "drop_refs [] = []"
| "drop_refs (c # cs) =
     (if c = CHR ''%'' \<and> take 1 cs = ''('' then
        (case var_ref (drop 1 cs) of
           None \<Rightarrow> c # drop_refs cs
         | Some (name, rest) \<Rightarrow> drop_refs rest)
      else c # drop_refs cs)"
  by pat_completeness auto
termination
proof (relation "measure length")
  fix c :: char and cs x2 x y
  assume "var_ref (drop 1 cs) = Some x2" "(x, y) = x2"
  then have "length y \<le> length (drop 1 cs)"
    using length_dropWhile_le [of "\<lambda>c. c \<noteq> CHR '')''" "drop 1 cs"]
    by (auto simp add: var_ref_def Let_def split: if_splits)
  then show "(y, c # cs) \<in> measure length" by simp
qed auto

text \<open>
  What \<^verbatim>\<open>read\<close> makes of the text that \<^verbatim>\<open>write\<close> produces for a value. \<^verbatim>\<open>write\<close> puts
  the value after \<^verbatim>\<open>key = \<close>, with a tab after each of its newlines. \<^verbatim>\<open>read\<close> takes
  the first line without the white space before it, cuts it at its first semicolon when
  the character before that semicolon is white space (for a semicolon at the start, the
  last character of the line), strips it, and reads two double quotes as the empty string;
  the lines after it are stripped and dropped when empty; the lines are joined by newlines.
\<close>

definition first_value :: "string \<Rightarrow> string" where
  "first_value line =
     (let optval = dropWhile is_space line;
          pos = length (takeWhile (\<lambda>c. c \<noteq> CHR '';'') optval);
          optval = (if CHR '';'' \<in> set optval \<and>
                       is_space (if pos = 0 then last optval else optval ! (pos - 1))
                    then take pos optval else optval);
          optval = strip optval
      in if optval = [CHR 0x22, CHR 0x22] then [] else optval)"

definition reread :: "string \<Rightarrow> string" where
  "reread v =
     (case split_lines v of
        [] \<Rightarrow> []
      | line # others \<Rightarrow>
          join [CHR 0x0A] (first_value line # filter (\<lambda>l. l \<noteq> []) (map strip others)))"

text \<open>
  \<^verbatim>\<open>read\<close> gives every section of the file the option \<^verbatim>\<open>__name__\<close>, the section's name,
  unless the file sets it; \<^verbatim>\<open>write\<close> leaves that option out. \<^verbatim>\<open>write\<close> writes an option
  as the line \<^verbatim>\<open>key = value\<close>, and \<^verbatim>\<open>read\<close> skips a line whose first word is \<^verbatim>\<open>rem\<close> in
  any case as a comment, so an option with such a name is lost.
\<close>

definition with_names :: "ini \<Rightarrow> ini" where
  "with_names p =
     p\<lparr>sections := (\<lambda>sect.
          map_option (\<lambda>d. if d ''__name__'' = None then d(''__name__'' \<mapsto> sect) else d)
            (sections p sect))\<rparr>"

definition comment_key :: "string \<Rightarrow> bool" where
  "comment_key k = (lower (takeWhile (\<lambda>c. \<not> is_space c) k) = ''rem'')"

definition written :: "ini \<Rightarrow> ini" where
  "written p =
     \<lparr>defaults = (\<lambda>k. if comment_key k then None else map_option reread (defaults p k)),
      sections = (\<lambda>sect.
          map_option
            (\<lambda>d k. if k = ''__name__'' \<or> comment_key k then None else map_option reread (d k))
            (sections p sect))\<rparr>"

definition parsed :: "imgur \<Rightarrow> exn + ini" where
  "parsed s =
     (case config_file s of
        Absent \<Rightarrow> Inr \<lparr>defaults = Map.empty, sections = Map.empty\<rparr>
      | Malformed \<Rightarrow> Inl ParsingError
      | Parsed p \<Rightarrow> Inr (with_names p))"

definition parser_read :: "(imgur, ini) prog" where
  "parser_read =
     bnd (emit ConfigRead) (\<lambda>_ s. (parsed s, s))"

definition parser_get :: "ini \<Rightarrow> string \<Rightarrow> string \<Rightarrow> exn + string" where
  "parser_get parser sect opt =
     (case (case sections parser sect of
              None \<Rightarrow> if sect \<noteq> ''DEFAULT'' then Inl NoSectionError else Inr Map.empty
            | Some d \<Rightarrow> Inr d) of
        Inl e \<Rightarrow> Inl e
      | Inr sectiondict \<Rightarrow>
          (case (defaults parser ++ sectiondict) (lower opt) of
             None \<Rightarrow> Inl NoOptionError
           | Some v \<Rightarrow> interpolate_some 1 (defaults parser ++ sectiondict) v))"

text \<open>
  The program calls \<^verbatim>\<open>has_section\<close>, \<^verbatim>\<open>add_section\<close> and \<^verbatim>\<open>set\<close> with the section
  \<^verbatim>\<open>Token\<close> only, and \<^verbatim>\<open>add_section\<close> only when the section is not there: what these do
  with the section \<^verbatim>\<open>DEFAULT\<close>, and the error of \<^verbatim>\<open>add_section\<close> for a section that
  exists, are left out. \<^verbatim>\<open>set\<close> raises \<^verbatim>\<open>TypeError\<close> for a value that is no string, then
  \<^verbatim>\<open>ValueError\<close> for a lone percent sign (its message, which quotes the value and the
  position, is cut to its first words), then \<^verbatim>\<open>NoSectionError\<close>. \<^verbatim>\<open>write\<close> opens the file
  for writing first, which raises \<^verbatim>\<open>IOError\<close> when the file cannot be written.
\<close>

definition has_section :: "ini \<Rightarrow> string \<Rightarrow> bool" where
  "has_section parser sect = (sections parser sect \<noteq> None)"

definition add_section :: "ini \<Rightarrow> string \<Rightarrow> ini" where
  "add_section parser sect = parser\<lparr>sections := (sections parser)(sect \<mapsto> Map.empty)\<rparr>"

definition parser_set :: "ini \<Rightarrow> string \<Rightarrow> string \<Rightarrow> json \<Rightarrow> exn + ini" where
  "parser_set parser sect opt v =
     (case v of
        JStr x \<Rightarrow>
          if CHR ''%'' \<in> set (drop_refs (drop_pairs x))
          then Inl (ValueError ''invalid interpolation syntax'')
          else
            (case sections parser sect of
               None \<Rightarrow> Inl NoSectionError
             | Some options \<Rightarrow>
                 Inr (parser\<lparr>sections := (sections parser)(sect \<mapsto> options(lower opt \<mapsto> x))\<rparr>))
      | _ \<Rightarrow> Inl TypeError)"

definition parser_write :: "ini \<Rightarrow> (imgur, unit) prog" where
  "parser_write parser s =
     (if config_writable s
      then (Inr (), s\<lparr>config_file := Parsed (written parser), log := log s @ [ConfigWrite]\<rparr>)
      else (Inl IOError, s))"

definition set_tokens_using_config :: "(imgur, unit) prog" where
  "set_tokens_using_config =
     bnd parser_read (\<lambda>parser.
     bnd (modify (\<lambda>s. s\<lparr>access_token :=
            (case parser_get parser ''Token'' ''access_token'' of
               Inr v \<Rightarrow> JStr v | Inl e \<Rightarrow> JNull)\<rparr>)) (\<lambda>_.
     modify (\<lambda>s. s\<lparr>refresh_token :=
            (case parser_get parser ''Token'' ''refresh_token'' of
               Inr v \<Rightarrow> JStr v | Inl e \<Rightarrow> JNull)\<rparr>)))"

definition write_tokens_to_config :: "(imgur, unit) prog" where
  "write_tokens_to_config =
     bnd parser_read (\<lambda>parser.
     bnd (gets access_token) (\<lambda>a.
     bnd (pure (parser_set
            (if \<not> has_section parser ''Token'' then add_section parser ''Token'' else parser)
            ''Token'' ''access_token'' a)) (\<lambda>parser1.
     bnd (gets refresh_token) (\<lambda>r.
     bnd (pure (parser_set parser1 ''Token'' ''refresh_token'' r)) (\<lambda>parser2.
     parser_write parser2)))))"

subsection \<open>Requests and the token exchanges\<close>

definition sent :: "io_event list \<Rightarrow> request list" where
  "sent evs = concat (map (\<lambda>e. case e of Sent r \<Rightarrow> [r] | _ \<Rightarrow> []) evs)"

definition do_request :: "string \<Rightarrow> string \<Rightarrow> body \<Rightarrow> (string \<times> string) list \<Rightarrow> (imgur, unit) prog" where
  "do_request m u b h =
     emit (Sent \<lparr>req_method = m, req_url = u, req_body = b, req_headers = h\<rparr>)"

definition get_json_response :: "env \<Rightarrow> (imgur, dict) prog" where
  "get_json_response E s = (server E (sent (log s)), s)"

definition form_headers :: "(string \<times> string) list" where
  "form_headers =
     [(''Content-type'', ''application/x-www-form-urlencoded''), (''Accept'', ''text/plain'')]"

definition request_new_tokens :: "env \<Rightarrow> (imgur, dict) prog" where
  "request_new_tokens E =
     bnd (gets (\<lambda>s.
            Form [(''refresh_token'', refresh_token s),
                  (''client_id'', JStr (client_id s)),
                  (''client_secret'', JStr (client_secret s)),
                  (''grant_type'', JStr ''refresh_token'')])) (\<lambda>params.
     bnd (do_request ''POST'' ''/oauth2/token'' params form_headers) (\<lambda>_.
     get_json_response E))"

definition request_new_tokens_and_update :: "env \<Rightarrow> (imgur, unit) prog" where
  "request_new_tokens_and_update E =
     bnd (gets refresh_token) (\<lambda>r0.
     bnd (if r0 = JNull then set_tokens_using_config else ret ()) (\<lambda>_.
     bnd (gets refresh_token) (\<lambda>r1.
     bnd (if r1 = JNull
          then show_error_and_exit
                 ''Can't read the value of refresh_token, you may have to authorize again''
          else ret ()) (\<lambda>_.
     bnd (request_new_tokens E) (\<lambda>response.
     bnd (pure (is_success response)) (\<lambda>ok.
       if ok then
         bnd (pure (getitem response ''access_token'')) (\<lambda>a.
         bnd (modify (\<lambda>s. s\<lparr>access_token := a\<rparr>)) (\<lambda>_.
         bnd (pure (getitem response ''refresh_token'')) (\<lambda>r.
         modify (\<lambda>s. s\<lparr>refresh_token := r\<rparr>))))
       else show_error_and_exit ''Update tokens fail''))))))"

text \<open>
  \<^verbatim>\<open>CLIImgur.ask_pin\<close> prints the message with the authorization URL and returns what
  the user types. The prompts of \<^verbatim>\<open>raw_input\<close> and \<^verbatim>\<open>input\<close> are not events.
\<close>

definition auth_url :: "imgur \<Rightarrow> string" where
  "auth_url s =
     ''https://api.imgur.com/oauth2/authorize?client_id='' @ client_id s
       @ ''&response_type=pin&state=carlcarl''"

definition auth_msg :: string where
  "auth_msg =
     ''This is the first time you use this program, ''
       @ ''you have to visit this URL in your browser and copy the PIN code: '' @ [CHR 0x0A]"

definition ask_pin :: "env \<Rightarrow> (imgur, string) prog" where
  "ask_pin E =
     bnd (gets (\<lambda>s. auth_msg @ auth_url s)) (\<lambda>auth_msg_with_url.
     bnd (emit (Printed auth_msg_with_url)) (\<lambda>_.
     ret (pin_typed E)))"

definition auth :: "env \<Rightarrow> (imgur, unit) prog" where
  "auth E =
     bnd (ask_pin E) (\<lambda>pin.
     bnd (gets (\<lambda>s.
            Form [(''client_id'', JStr (client_id s)),
                  (''client_secret'', JStr (client_secret s)),
                  (''grant_type'', JStr ''pin''),
                  (''pin'', JStr pin)])) (\<lambda>params.
     bnd (do_request ''POST'' ''/oauth2/token'' params form_headers) (\<lambda>_.
     bnd (get_json_response E) (\<lambda>result.
     bnd (pure (is_success result)) (\<lambda>ok.
       if ok then
         bnd (pure (getitem result ''access_token'')) (\<lambda>a.
         bnd (modify (\<lambda>s. s\<lparr>access_token := a\<rparr>)) (\<lambda>_.
         bnd (pure (getitem result ''refresh_token'')) (\<lambda>r.
         modify (\<lambda>s. s\<lparr>refresh_token := r\<rparr>))))
       else show_error_and_exit ''Authorization error'')))))"

subsection \<open>The retry decorator\<close>

text \<open>
  The decorated function runs on the state together with the list of the steps the loop
  has taken: each call of the wrapped function, each call of
  \<^verbatim>\<open>request_new_tokens_and_update\<close> and of \<^verbatim>\<open>write_tokens_to_config\<close>, and each
  \<^verbatim>\<open>time.sleep\<close>. The wrapped function sees the state only.
\<close>

datatype step = Call | Refresh | Persist | Sleep rat

definition on_world :: "(imgur, 'a) prog \<Rightarrow> (imgur \<times> step list, 'a) prog" where
  "on_world m = (\<lambda>(s, st). case m s of (r, s') \<Rightarrow> (r, (s', st)))"

definition step :: "step \<Rightarrow> (imgur \<times> step list, unit) prog" where
  "step x = (\<lambda>(s, st). (Inr (), (s, st @ [x])))"

function f_retry ::
  "env \<Rightarrow> (imgur, dict) prog \<Rightarrow> string \<Rightarrow> rat \<Rightarrow> int \<Rightarrow> (imgur \<times> step list, json) prog" where
  "f_retry E f name mdelay mtries =
     (if mtries > 1 then
        bnd (step Call) (\<lambda>_.
        bnd (on_world f) (\<lambda>result.
        bnd (pure (is_success result)) (\<lambda>ok.
          if ok then pure (getitem result ''data'')
          else
            bnd (step Refresh) (\<lambda>_.
            bnd (on_world (request_new_tokens_and_update E)) (\<lambda>_.
            bnd (step Persist) (\<lambda>_.
            bnd (on_world write_tokens_to_config) (\<lambda>_.
            bnd (step (Sleep mdelay)) (\<lambda>_.
            f_retry E f name mdelay (mtries - 1))))))))) 
      else
        bnd (step Call) (\<lambda>_.
        bnd (on_world f) (\<lambda>result.
        bnd (pure (is_success result)) (\<lambda>ok.
          if ok then pure (getitem result ''data'')
          else show_error_and_exit (''Error in '' @ name)))))"
  by pat_completeness auto
termination
  by (relation "measure (\<lambda>(E, f, name, mdelay, mtries). nat mtries)") auto

definition retry ::
  "env \<Rightarrow> rat \<Rightarrow> rat \<Rightarrow>
   exn + ((imgur, dict) prog \<Rightarrow> string \<Rightarrow> (imgur \<times> step list, json) prog)" where
  "retry E tries delay =
     (let tries = \<lfloor>tries\<rfloor> in
      if tries < 0 then Inl (ValueError ''tries must be 0 or greater'')
      else if delay \<le> 0 then Inl (ValueError ''delay must be greater than 0'')
      else Inr (\<lambda>f name. f_retry E f name delay tries))"

declare f_retry.simps [simp del]

definition run_steps :: "(imgur \<times> step list, 'a) prog \<Rightarrow> (imgur, 'a) prog" where
  "run_steps m = (\<lambda>s. case m (s, []) of (r, (s', st)) \<Rightarrow> (r, s'))"

definition decorated ::
  "exn + ((imgur, dict) prog \<Rightarrow> string \<Rightarrow> (imgur \<times> step list, json) prog) \<Rightarrow>
   (imgur, dict) prog \<Rightarrow> string \<Rightarrow> (imgur \<times> step list, json) prog" where
  "decorated d f name = (case d of Inl e \<Rightarrow> raise e | Inr deco \<Rightarrow> deco f name)"

subsection \<open>Albums\<close>

definition album_list_call :: "env \<Rightarrow> string \<Rightarrow> (imgur, dict) prog" where
  "album_list_call E account =
     bnd (if account = ''me'' then
            bnd (gets access_token) (\<lambda>a0.
            bnd (if a0 = JNull then set_tokens_using_config else ret ()) (\<lambda>_.
            bnd (gets access_token) (\<lambda>a.
            ret [(''Authorization'', ''Bearer '' @ py_str E a)])))
          else
            bnd (gets client_id) (\<lambda>c.
            ret [(''Authorization'', ''Client-ID '' @ c)])) (\<lambda>headers.
     bnd (do_request ''GET'' (''/3/account/'' @ account @ ''/albums'') NoBody headers) (\<lambda>_.
     get_json_response E))"

definition request_album_list :: "env \<Rightarrow> string \<Rightarrow> (imgur \<times> step list, json) prog" where
  "request_album_list E account =
     decorated (retry E 2 1) (album_list_call E account) ''request_album_list''"

definition get_album_id :: "json list \<Rightarrow> int \<Rightarrow> ('s, json) prog" where
  "get_album_id data_map album_number =
     bnd (pure (py_index data_map (album_number - 1))) (\<lambda>album.
     pure (subscript album ''id''))"

fun print_albums :: "env \<Rightarrow> int \<Rightarrow> json list \<Rightarrow> (imgur, int) prog" where
  "print_albums E i [] = ret i"
| "print_albums E i (album # rest) =
     bnd (pure (subscript album ''title'')) (\<lambda>t.
     bnd (pure (subscript album ''privacy'')) (\<lambda>p.
     bnd (emit (Printed (str_int i @ '') '' @ py_str E t @ ''('' @ py_str E p @ '')''))) (\<lambda>_.
     print_albums E (i + 1) rest)))"

definition ask_album_id :: "env \<Rightarrow> json \<Rightarrow> (imgur, json) prog" where
  "ask_album_id E albums =
     bnd (emit (Printed ''Enter the number of the album you want to upload: '')) (\<lambda>_.
     bnd (pure (iterate albums)) (\<lambda>items.
     bnd (print_albums E 1 items) (\<lambda>i.
     bnd (emit (Printed (str_int i @ '') Do not move to any album''))) (\<lambda>_.
     get_album_id (items @ [JObj [(''id'', JNull)]]) (number_typed E)))))"

subsection \<open>Showing the links\<close>

definition show_link :: "env \<Rightarrow> dict \<Rightarrow> (imgur, unit) prog" where
  "show_link E result =
     bnd (pure (getitem result ''data'')) (\<lambda>d.
     bnd (pure (subscript d ''link'')) (\<lambda>l.
     bnd (case l of JStr x \<Rightarrow> ret (filter (\<lambda>c. c \<noteq> CHR 0x5C) x) | _ \<Rightarrow> raise AttributeError) (\<lambda>link.
     bnd (emit (Printed (''Link: '' @ link))) (\<lambda>_.
     bnd (pure (getitem result ''data'')) (\<lambda>d'.
     bnd (pure (subscript d' ''deletehash'')) (\<lambda>h.
     emit (Printed (''Delete link: http://imgur.com/delete/'' @ py_str E h))))))))"

subsection \<open>The multipart body\<close>

definition random_string :: "env \<Rightarrow> nat \<Rightarrow> string" where
  "random_string E len = map (random_choice E) [0..<len + 1]"

definition get_content_type :: "env \<Rightarrow> string \<Rightarrow> string" where
  "get_content_type E filename =
     (case guess_type E filename of None \<Rightarrow> ''application/octet-stream'' | Some t \<Rightarrow> t)"

definition open_rb :: "env \<Rightarrow> string \<Rightarrow> (imgur, unit) prog" where
  "open_rb E filename =
     (case disk E filename of Missing \<Rightarrow> raise IOError | _ \<Rightarrow> emit (Opened filename))"

definition read_all :: "env \<Rightarrow> string \<Rightarrow> (imgur, string) prog" where
  "read_all E filename =
     (case disk E filename of
        Content c \<Rightarrow> bnd (emit (ReadAll filename)) (\<lambda>_. ret c)
      | _ \<Rightarrow> raise IOError)"

definition quoted :: "string \<Rightarrow> string" where
  "quoted x = CHR 0x22 # x @ [CHR 0x22]"

definition encode_field :: "env \<Rightarrow> string \<Rightarrow> dict \<Rightarrow> string \<Rightarrow> (imgur, string list) prog" where
  "encode_field E boundary data field_name =
     bnd (pure (getitem data field_name)) (\<lambda>v.
     ret [''--'' @ boundary,
          ''Content-Disposition: form-data; name='' @ quoted field_name,
          [],
          py_str E v])"

definition encode_file ::
  "env \<Rightarrow> string \<Rightarrow> (string \<times> string) list \<Rightarrow> string \<Rightarrow> (imgur, string list) prog" where
  "encode_file E boundary files field_name =
     bnd (pure (getitem files field_name)) (\<lambda>filename.
     bnd (open_rb E filename) (\<lambda>_.
     bnd (read_all E filename) (\<lambda>content.
     ret [''--'' @ boundary,
          ''Content-Disposition: form-data; name='' @ quoted field_name
             @ ''; filename='' @ quoted filename,
          ''Content-Type: '' @ get_content_type E filename,
          [],
          content])))"

fun extend_each ::
  "('k \<Rightarrow> (imgur, string list) prog) \<Rightarrow> 'k list \<Rightarrow> string list \<Rightarrow> (imgur, string list) prog" where
  "extend_each enc [] lines = ret lines"
| "extend_each enc (name # names) lines =
     bnd (enc name) (\<lambda>part. extend_each enc names (lines @ part))"

definition encode_multipart_data ::
  "env \<Rightarrow> dict \<Rightarrow> (string \<times> string) list \<Rightarrow> (imgur, string \<times> (string \<times> string) list) prog" where
  "encode_multipart_data E data files =
     (let boundary = random_string E 30 in
      bnd (extend_each (encode_field E boundary data) (map fst data) []) (\<lambda>lines.
      bnd (extend_each (encode_file E boundary files) (map fst files) lines) (\<lambda>lines.
      let lines = lines @ [''--'' @ boundary @ ''--'', []];
          body = join [CHR 0x0D, CHR 0x0A] lines;
          headers = [(''content-type'', ''multipart/form-data; boundary='' @ boundary),
                     (''content-length'', str_int (int (length body)))]
      in ret (body, headers))))"

subsection \<open>Uploading\<close>

definition upload_image_call ::
  "env \<Rightarrow> string \<Rightarrow> string \<Rightarrow> (string \<times> string) list \<Rightarrow> (imgur, dict) prog" where
  "upload_image_call E url body headers =
     bnd (do_request ''POST'' url (Raw body) headers) (\<lambda>_.
     get_json_response E)"

definition request_upload_image ::
  "env \<Rightarrow> string \<Rightarrow> string \<Rightarrow> (string \<times> string) list \<Rightarrow> (imgur \<times> step list, json) prog" where
  "request_upload_image E url body headers =
     decorated (retry E 2 1) (upload_image_call E url body headers) ''request_upload_image''"

definition ask_image_path :: "env \<Rightarrow> (imgur, string) prog" where
  "ask_image_path E = ret (path_typed E)"

text \<open>
  \<^verbatim>\<open>upload\<close> is modelled in two parts: \<open>send_and_show\<close> is the end of the method, from
  the first \<^verbatim>\<open>self._request('POST', url, body, headers)\<close> on, which both branches run.
\<close>

definition send_and_show :: "env \<Rightarrow> string \<Rightarrow> (string \<times> string) list \<Rightarrow> (imgur, unit) prog" where
  "send_and_show E body headers =
     bnd (do_request ''POST'' ''/3/image'' (Raw body) headers) (\<lambda>_.
     bnd (get_json_response E) (\<lambda>result.
     bnd (pure (is_success result)) (\<lambda>ok.
     bnd (if \<not> ok then
            bnd (request_new_tokens_and_update E) (\<lambda>_.
            bnd write_tokens_to_config (\<lambda>_.
            bnd (do_request ''POST'' ''/3/image'' (Raw body) headers) (\<lambda>_.
            bnd (get_json_response E) (\<lambda>result'.
            bnd (pure (is_success result')) (\<lambda>ok'.
            if \<not> ok' then show_error_and_exit ''Upload image error'' else ret result')))))
          else ret result) (\<lambda>shown.
     show_link E shown))))"

definition upload :: "env \<Rightarrow> string option \<Rightarrow> bool \<Rightarrow> json \<Rightarrow> (imgur, unit) prog" where
  "upload E image_path anonymous album_id =
     bnd (case image_path of None \<Rightarrow> ask_image_path E | Some p \<Rightarrow> ret p) (\<lambda>image_path.
     bnd (if anonymous then
            bnd (emit (Printed ''Upload the image anonymously...'')) (\<lambda>_.
            bnd (encode_multipart_data E [] [(''image'', image_path)]) (\<lambda>(body, headers).
            bnd (gets client_id) (\<lambda>c.
            ret (body, setitem headers ''Authorization'' (''Client-ID '' @ c)))))
          else
            bnd set_tokens_using_config (\<lambda>_.
            bnd (gets (\<lambda>s. access_token s = JNull \<or> refresh_token s = JNull)) (\<lambda>first_time.
            bnd (if first_time then bnd (auth E) (\<lambda>_. write_tokens_to_config) else ret ()) (\<lambda>_.
            bnd (if album_id = JNull then
                   bnd (run_steps (request_album_list E ''me'')) (\<lambda>albums.
                   bnd (ask_album_id E albums) (\<lambda>chosen.
                   ret (if chosen \<noteq> JNull then [(''album_id'', chosen)] else [])))
                 else ret [(''album_id'', album_id)]) (\<lambda>data.
            bnd (encode_multipart_data E data [(''image'', image_path)]) (\<lambda>(body, headers).
            bnd (gets access_token) (\<lambda>a.
            ret (body, setitem headers ''Authorization'' (''Bearer '' @ py_str E a))))))))) (\<lambda>(body, headers).
     send_and_show E body headers))"

section \<open>Concrete inputs\<close>

definition failure :: dict where
  "failure = [(''success'', JBool False), (''data'', JObj [(''error'', JStr ''Invalid token'')])]"

definition new_tokens :: dict where
  "new_tokens = [(''access_token'', JStr ''A2''), (''refresh_token'', JStr ''R2'')]"

definition failing_call :: "(imgur, dict) prog" where
  "failing_call = ret failure"

definition by_url :: "dict \<Rightarrow> dict \<Rightarrow> request list \<Rightarrow> exn + dict" where
  "by_url token_reply api_reply reqs =
     (if reqs = [] then Inl IOError
      else if req_url (last reqs) = ''/oauth2/token'' then Inr token_reply
      else Inr api_reply)"

definition demo_env :: "(request list \<Rightarrow> exn + dict) \<Rightarrow> env" where
  "demo_env srv =
     \<lparr>server = srv, pin_typed = ''1234'', path_typed = ''cat.png'', number_typed = 1,
      disk = (\<lambda>p. if p = ''cat.png'' then Content ''PNGDATA''
                  else if p = ''locked.png'' then Unreadable else Missing),
      guess_type = (\<lambda>p. if p = ''cat.png'' then Some ''image/png'' else None),
      random_choice = (\<lambda>i. CHR ''x''),
      repr_container = (\<lambda>v. ''[]'')\<rparr>"

definition new_imgur :: "config_state \<Rightarrow> imgur" where
  "new_imgur file =
     \<lparr>client_id = ''55080e3fd8d0644'',
      client_secret = ''d021464e1b3244d6f73749b94d17916cf361da24'',
      access_token = JNull, refresh_token = JNull,
      config_file = file, config_writable = True, log = []\<rparr>"

definition token_file :: "string \<Rightarrow> string \<Rightarrow> config_state" where
  "token_file a r =
     Parsed \<lparr>defaults = Map.empty,
             sections = [''Token'' \<mapsto> [''access_token'' \<mapsto> a, ''refresh_token'' \<mapsto> r]]\<rparr>"

definition authorized :: imgur where
  "authorized =
     (new_imgur (token_file ''A1'' ''R1''))
       \<lparr>access_token := JStr ''A1'', refresh_token := JStr ''R1''\<rparr>"

definition refresh_post :: "imgur \<Rightarrow> json \<Rightarrow> request" where
  "refresh_post s r =
     \<lparr>req_method = ''POST'', req_url = ''/oauth2/token'',
      req_body = Form [(''refresh_token'', r),
                       (''client_id'', JStr (client_id s)),
                       (''client_secret'', JStr (client_secret s)),
                       (''grant_type'', JStr ''refresh_token'')],
      req_headers = form_headers\<rparr>"

definition pin_post :: "env \<Rightarrow> imgur \<Rightarrow> request" where
  "pin_post E s =
     \<lparr>req_method = ''POST'', req_url = ''/oauth2/token'',
      req_body = Form [(''client_id'', JStr (client_id s)),
                       (''client_secret'', JStr (client_secret s)),
                       (''grant_type'', JStr ''pin''),
                       (''pin'', JStr (pin_typed E))],
      req_headers = form_headers\<rparr>"

definition uploaded :: dict where
  "uploaded =
     [(''data'', JObj [(''link'', JStr ''http://i.imgur.com/x.png''), (''deletehash'', JStr ''d1'')])]"

definition image_post :: "string \<Rightarrow> (string \<times> string) list \<Rightarrow> request" where
  "image_post body headers =
     \<lparr>req_method = ''POST'', req_url = ''/3/image'', req_body = Raw body, req_headers = headers\<rparr>"

definition album :: "string \<Rightarrow> string \<Rightarrow> json" where
  "album i t = JObj [(''id'', JStr i), (''title'', JStr t), (''privacy'', JStr ''public'')]"

definition abc_albums :: "json list" where
  "abc_albums = [album ''a'' ''Cats'', album ''b'' ''Dogs'', album ''c'' ''Birds'']"

text \<open>
  An album that \<^verbatim>\<open>ask_album_id\<close> can list and select: a dict with the keys \<^verbatim>\<open>id\<close>,
  \<^verbatim>\<open>title\<close> and \<^verbatim>\<open>privacy\<close>.
\<close>

fun is_album :: "json \<Rightarrow> bool" where
  "is_album (JObj d) =
     (map_of d ''id'' \<noteq> None \<and> map_of d ''title'' \<noteq> None \<and> map_of d ''privacy'' \<noteq> None)"
| "is_album v = False"

text \<open>The number a string of decimal digits denotes, to read a \<^verbatim>\<open>content-length\<close>.\<close>

definition decimal_value :: "string \<Rightarrow> nat" where
  "decimal_value digits = foldl (\<lambda>n c. 10 * n + (of_char c - 48)) 0 digits"

text \<open>The events that read or write the config file, and the events of files and output.\<close>

fun touches_store :: "io_event \<Rightarrow> bool" where
  "touches_store ConfigRead = True"
| "touches_store ConfigWrite = True"
| "touches_store e = False"

fun local_event :: "io_event \<Rightarrow> bool" where
  "local_event (Opened f) = True"
| "local_event (ReadAll f) = True"
| "local_event (Printed x) = True"
| "local_event e = False"

fun file_event :: "io_event \<Rightarrow> bool" where
  "file_event (Opened f) = True"
| "file_event (ReadAll f) = True"
| "file_event e = False"

text \<open>
  A statement that, from any state, only appends events of one kind to the log and leaves
  the rest of the state as it was.
\<close>

definition only_adds :: "(io_event \<Rightarrow> bool) \<Rightarrow> (imgur, 'a) prog \<Rightarrow> bool" where
  "only_adds ok m = (\<forall>s. \<exists>evs. snd (m s) = s\<lparr>log := log s @ evs\<rparr> \<and> list_all ok evs)"

text \<open>The anonymous branch of \<^verbatim>\<open>upload\<close>, which builds the body and the headers.\<close>

definition anonymous_request ::
  "env \<Rightarrow> string \<Rightarrow> (imgur, string \<times> (string \<times> string) list) prog" where
  "anonymous_request E path =
     bnd (emit (Printed ''Upload the image anonymously...'')) (\<lambda>_.
     bnd (encode_multipart_data E [] [(''image'', path)]) (\<lambda>(body, headers).
     bnd (gets client_id) (\<lambda>c.
     ret (body, setitem headers ''Authorization'' (''Client-ID '' @ c)))))"

text \<open>
  A token that the config file keeps as it is: ASCII characters only, none of them white
  space, a percent sign or a semicolon, and not the string of two double quotes.
\<close>

definition plain_token :: "string \<Rightarrow> bool" where
  "plain_token v =
     (list_all (\<lambda>c. \<not> is_space c \<and> c \<noteq> CHR ''%'' \<and> c \<noteq> CHR '';'' \<and> of_char c < (128 :: nat)) v \<and>
      v \<noteq> [CHR 0x22, CHR 0x22])"


section \<open>Basic facts\<close>

lemmas prog_defs =
  bnd_def ret_def raise_def pure_def gets_def modify_def emit_def show_error_and_exit_def
  step_def on_world_def

lemmas request_defs =
  request_new_tokens_and_update_def request_new_tokens_def do_request_def
  get_json_response_def sent_def form_headers_def

lemmas config_defs =
  set_tokens_using_config_def write_tokens_to_config_def parser_read_def parser_get_def
  parser_set_def parser_write_def has_section_def add_section_def

lemma comment_key_tokens [simp]:
  "\<not> comment_key ''access_token''" "\<not> comment_key ''refresh_token''"
  by (simp_all add: comment_key_def lower_def is_space_def)

lemma sent_append: "sent (xs @ ys) = sent xs @ sent ys"
  by (simp add: sent_def)

lemma sent_Sent: "sent [Sent q] = [q]"
  by (simp add: sent_def)

lemma sent_Printed: "sent [Printed x] = []"
  by (simp add: sent_def)

lemma sent_ConfigRead: "sent [ConfigRead] = []"
  by (simp add: sent_def)

subsection \<open>The retry loop\<close>

lemma f_retry_last:
  assumes "mtries \<le> 1" "f s = (Inr r, s')" "is_success r = Inr False"
  shows "f_retry E f name d mtries (s, st) =
           (Inl (SystemExit (''Error in '' @ name)), (s', st @ [Call]))"
  using assms by (simp add: f_retry.simps prog_defs)

lemma f_retry_again:
  assumes "1 < mtries" "f s = (Inr r, s1)" "is_success r = Inr False"
    "request_new_tokens_and_update E s1 = (Inr (), s2)"
    "write_tokens_to_config s2 = (Inr (), s3)"
  shows "f_retry E f name d mtries (s, st) =
           f_retry E f name d (mtries - 1) (s3, st @ [Call, Refresh, Persist, Sleep d])"
  using assms by (simp add: f_retry.simps [of _ _ _ _ mtries] prog_defs)


text \<open>
  An operation that fails at every state of an invariant \<open>P\<close>, with a reauthorization
  that completes at every such state: \<open>n\<close> rounds of call, refresh, persist and sleep,
  then the last call and the exit.
\<close>

lemma f_retry_always_failing:
  assumes f: "\<And>s. P s \<Longrightarrow> \<exists>r s'. f s = (Inr r, s') \<and> is_success r = Inr False \<and> P s'"
    and re: "\<And>s. P s \<Longrightarrow> \<exists>s' s''. request_new_tokens_and_update E s = (Inr (), s') \<and>
               write_tokens_to_config s' = (Inr (), s'') \<and> P s''"
  shows "P s \<Longrightarrow> mtries = 1 + int n \<Longrightarrow> \<exists>s'. f_retry E f name d mtries (s, st) =
     (Inl (SystemExit (''Error in '' @ name)),
      (s', st @ concat (replicate n [Call, Refresh, Persist, Sleep d]) @ [Call])) \<and> P s'"
proof (induction n arbitrary: s st mtries)
  case 0
  from f [OF 0(1)] obtain r s' where "f s = (Inr r, s')" "is_success r = Inr False" "P s'"
    by blast
  then show ?case using f_retry_last [of mtries f s r s' E name d st] 0(2) by simp
next
  case (Suc n)
  from f [OF Suc.prems(1)] obtain r s1
    where 1: "f s = (Inr r, s1)" "is_success r = Inr False" "P s1" by blast
  from re [OF 1(3)] obtain s2 s3
    where 2: "request_new_tokens_and_update E s1 = (Inr (), s2)"
      "write_tokens_to_config s2 = (Inr (), s3)" "P s3" by blast
  have gt: "1 < mtries" and pred: "mtries - 1 = 1 + int n" using Suc.prems(2) by simp_all
  have unfold: "f_retry E f name d mtries (s, st) =
        f_retry E f name d (mtries - 1) (s3, st @ [Call, Refresh, Persist, Sleep d])"
    using gt 1(1,2) 2(1,2) by (rule f_retry_again)
  from Suc.IH [OF 2(3) pred, of "st @ [Call, Refresh, Persist, Sleep d]"]
  obtain s' where
    "f_retry E f name d (mtries - 1) (s3, st @ [Call, Refresh, Persist, Sleep d]) =
       (Inl (SystemExit (''Error in '' @ name)),
        (s', (st @ [Call, Refresh, Persist, Sleep d]) @
             concat (replicate n [Call, Refresh, Persist, Sleep d]) @ [Call]))" "P s'"
    by blast
  with unfold show ?case by auto
qed

lemma steps_count:
  "count_list (concat (replicate n [Call, Refresh, Persist, Sleep d])) Call = n"
  "count_list (concat (replicate n [Call, Refresh, Persist, Sleep d])) Refresh = n"
  "count_list (concat (replicate n [Call, Refresh, Persist, Sleep d])) Persist = n"
  "count_list (concat (replicate n [Call, Refresh, Persist, Sleep d])) (Sleep d) = n"
  by (induction n) simp_all

lemma lower_access [simp]: "lower ''access_token'' = ''access_token''"
  by (simp add: lower_def)

lemma lower_refresh [simp]: "lower ''refresh_token'' = ''refresh_token''"
  by (simp add: lower_def)

lemma reauth_demo:
  "refresh_token s = JStr r \<Longrightarrow> config_writable s \<Longrightarrow> config_file s \<noteq> Malformed \<Longrightarrow>
     \<exists>s' s''. request_new_tokens_and_update (demo_env (by_url new_tokens failure)) s = (Inr (), s') \<and>
               write_tokens_to_config s' = (Inr (), s'') \<and> refresh_token s'' = JStr ''R2'' \<and>
               config_writable s'' \<and> config_file s'' \<noteq> Malformed"
  by (cases "config_file s")
    (simp_all add: request_defs config_defs parsed_def with_names_def prog_defs demo_env_def
      by_url_def new_tokens_def is_success_def getitem_def split: option.splits)

section \<open>The claims\<close>

text \<open>
  Claim C1, as the code has it. With \<open>tries = N \<ge> 1\<close> and a delay \<open>d > 0\<close>, if the
  wrapped operation returns a failing envelope at every call and every reauthorization
  between two attempts completes (the refresh exchange succeeds and the tokens are written
  to the config file), then the steps of the decorated function are exactly \<open>N - 1\<close>
  rounds of call, \<^verbatim>\<open>request_new_tokens_and_update\<close>, \<^verbatim>\<open>write_tokens_to_config\<close> and a
  sleep of \<open>d\<close>, followed by the \<open>N\<close>-th call; the result is the exit with the message
  \<^verbatim>\<open>Error in\<close> followed by the operation's name. So the operation is called \<open>N\<close> times and
  refresh, persist and sleep happen \<open>N - 1\<close> times each, one round between two
  consecutive calls. The invariant \<open>P\<close> says where the two hypotheses are needed.
\<close>

theorem retry_always_failing:
  assumes N: "1 \<le> N" and d: "0 < d"
    and init: "P s"
    and fails: "\<And>s. P s \<Longrightarrow> \<exists>r s'. f s = (Inr r, s') \<and> is_success r = Inr False \<and> P s'"
    and reauth: "\<And>s. P s \<Longrightarrow> \<exists>s' s''. request_new_tokens_and_update E s = (Inr (), s') \<and>
               write_tokens_to_config s' = (Inr (), s'') \<and> P s''"
  shows "\<exists>s' steps. decorated (retry E (of_nat N) d) f name (s, []) =
            (Inl (SystemExit (''Error in '' @ name)), (s', steps)) \<and>
          steps = concat (replicate (N - 1) [Call, Refresh, Persist, Sleep d]) @ [Call] \<and>
          count_list steps Call = N \<and> count_list steps Refresh = N - 1 \<and>
          count_list steps Persist = N - 1 \<and> count_list steps (Sleep d) = N - 1"
proof -
  have dec: "decorated (retry E (of_nat N) d) f name = f_retry E f name d (int N)"
    using d by (simp add: decorated_def retry_def)
  have "int N = 1 + int (N - 1)" using N by simp
  from f_retry_always_failing [of P f E s "int N" "N - 1" name d "[]", OF fails reauth init this]
  obtain s' where "f_retry E f name d (int N) (s, []) =
     (Inl (SystemExit (''Error in '' @ name)),
      (s', concat (replicate (N - 1) [Call, Refresh, Persist, Sleep d]) @ [Call]))"
    by auto
  then show ?thesis using N by (simp add: dec steps_count)
qed

text \<open>
  The theorem at three tries: the server answers every token request with new tokens, the
  operation fails three times.
\<close>

theorem retry_always_failing_witness:
  "\<exists>s'. decorated (retry (demo_env (by_url new_tokens failure)) 3 1) failing_call
          ''request_upload_image'' (authorized, []) =
        (Inl (SystemExit ''Error in request_upload_image''),
         (s', [Call, Refresh, Persist, Sleep 1, Call, Refresh, Persist, Sleep 1, Call]))"
proof -
  let ?P = "\<lambda>s. (\<exists>r. refresh_token s = JStr r) \<and> config_writable s \<and> config_file s \<noteq> Malformed"
  have 1: "?P authorized" by (simp add: authorized_def new_imgur_def token_file_def)
  have 2: "\<exists>r s'. failing_call s = (Inr r, s') \<and> is_success r = Inr False \<and> ?P s'"
    if "?P s" for s
    using that by (simp add: failing_call_def ret_def failure_def is_success_def getitem_def)
  have 3: "\<exists>s' s''. request_new_tokens_and_update (demo_env (by_url new_tokens failure)) s =
               (Inr (), s') \<and> write_tokens_to_config s' = (Inr (), s'') \<and> ?P s''"
    if "?P s" for s
    using that reauth_demo by blast
  have "(1::nat) \<le> 3" "(0::rat) < 1" by simp_all
  from retry_always_failing
    [where P = ?P and f = failing_call and name = "''request_upload_image''", OF this 1 2 3]
  show ?thesis by (auto simp: eval_nat_numeral)
qed

text \<open>
  Without the hypothesis on the reauthorization the claim fails: with two tries and a
  server that also refuses the refresh, the operation is called once, not twice, and the
  exit names the token update, not the operation.
\<close>

theorem retry_always_failing_counterexample:
  "fst (decorated (retry (demo_env (by_url failure failure)) 2 1) failing_call
          ''request_upload_image'' (authorized, [])) = Inl (SystemExit ''Update tokens fail'') \<and>
   snd (snd (decorated (retry (demo_env (by_url failure failure)) 2 1) failing_call
          ''request_upload_image'' (authorized, []))) = [Call, Refresh]"
  by (simp add: decorated_def retry_def f_retry.simps prog_defs failing_call_def failure_def
      is_success_def getitem_def authorized_def new_imgur_def request_defs demo_env_def
      by_url_def)

text \<open>
  Claim C3, as the code has it. A \<open>tries\<close> value whose floor is negative makes
  \<^verbatim>\<open>retry\<close> raise \<^verbatim>\<open>ValueError\<close>: the decorated function is never built, so the state
  and the steps are untouched and the wrapped operation is not called. Every other value is
  accepted when the delay is positive, zero included, and with zero tries the decorated
  function is the one of a single try.
\<close>

theorem retry_tries_validation:
  "(\<lfloor>tries\<rfloor> < 0 \<longrightarrow>
      decorated (retry E tries delay) f name (s, st) =
        (Inl (ValueError ''tries must be 0 or greater''), (s, st))) \<and>
   (0 \<le> \<lfloor>tries\<rfloor> \<and> 0 < delay \<longrightarrow>
      retry E tries delay = Inr (\<lambda>f name. f_retry E f name delay \<lfloor>tries\<rfloor>)) \<and>
   f_retry E f name delay 0 = f_retry E f name delay 1"
  by (simp add: decorated_def retry_def raise_def f_retry.simps)

text \<open>The theorem at \<open>tries = -1\<close> and at \<open>tries = 0\<close>.\<close>

theorem retry_tries_validation_witness:
  "decorated (retry (demo_env (by_url new_tokens failure)) (- 1) 1) failing_call ''f''
     (authorized, []) =
     (Inl (ValueError ''tries must be 0 or greater''), (authorized, [])) \<and>
   retry (demo_env (by_url new_tokens failure)) 0 1 =
     Inr (\<lambda>f name. f_retry (demo_env (by_url new_tokens failure)) f name 1 0)"
  using retry_tries_validation
      [of "- 1" "demo_env (by_url new_tokens failure)" 1 failing_call "''f''" authorized "[]"]
    retry_tries_validation
      [of 0 "demo_env (by_url new_tokens failure)" 1 failing_call "''f''" authorized "[]"]
  by simp

text \<open>
  Zero tries are not rejected: the wrapped operation is called once and its failure is the
  loop's exit, not a \<^verbatim>\<open>ValueError\<close>.
\<close>

theorem retry_zero_tries_counterexample:
  "decorated (retry (demo_env (by_url new_tokens failure)) 0 1) failing_call ''f''
     (authorized, []) =
     (Inl (SystemExit ''Error in f''), (authorized, [Call]))"
  by (simp add: decorated_def retry_def f_retry.simps prog_defs failing_call_def failure_def
      is_success_def getitem_def)



subsection \<open>Values that the config file keeps\<close>

lemma set_drop_pairs: "set (drop_pairs x) \<subseteq> set x"
  by (induction x rule: drop_pairs.induct) auto

lemma set_drop_refs: "set (drop_refs x) \<subseteq> set x"
proof (induction x rule: drop_refs.induct)
  case 1
  then show ?case by simp
next
  case (2 c cs)
  show ?case
  proof (cases "c = CHR ''%'' \<and> take 1 cs = ''(''")
    case False
    with 2 show ?thesis by auto
  next
    case True
    show ?thesis
    proof (cases "var_ref (drop 1 cs)")
      case None
      with True 2 show ?thesis by auto
    next
      case (Some nr)
      obtain name rest where nr: "nr = (name, rest)" by (cases nr)
      with Some have "set rest \<subseteq> set cs"
        by (auto simp add: var_ref_def Let_def split: if_splits
            dest!: in_set_dropD set_dropWhileD)
      moreover from 2(2) [OF True Some nr [symmetric]]
      have "set (drop_refs rest) \<subseteq> set rest" .
      ultimately show ?thesis using True Some nr by auto
    qed
  qed
qed

lemma no_percent_check:
  "CHR ''%'' \<notin> set x \<Longrightarrow> CHR ''%'' \<notin> set (drop_refs (drop_pairs x))"
  using set_drop_refs set_drop_pairs by blast

lemma interpolate_plain:
  "depth \<le> 10 \<Longrightarrow> CHR ''%'' \<notin> set x \<Longrightarrow> interpolate_some depth vars x = Inr x"
proof (induction x)
  case Nil
  then show ?case by (subst interpolate_some.simps) simp
next
  case (Cons c cs)
  then have "interpolate_some depth vars cs = Inr cs" "c \<noteq> CHR ''%''" "depth \<le> 10"
    by auto
  then show ?case by (subst interpolate_some.simps) simp
qed

lemma split_lines_one: "CHR 0x0A \<notin> set x \<Longrightarrow> split_lines x = [x]"
  by (induction x) auto

lemma dropWhile_none: "list_all (\<lambda>c. \<not> P c) x \<Longrightarrow> dropWhile P x = x"
  by (cases x) auto

lemma strip_plain: "list_all (\<lambda>c. \<not> is_space c) x \<Longrightarrow> strip x = x"
  by (simp add: strip_def dropWhile_none list_all_iff)

lemma reread_plain:
  assumes "plain_token v"
  shows "reread v = v"
proof -
  from assms have sp: "list_all (\<lambda>c. \<not> is_space c) v" and semi: "CHR '';'' \<notin> set v"
    and q: "v \<noteq> [CHR 0x22, CHR 0x22]"
    by (auto simp add: plain_token_def list_all_iff)
  from sp have "CHR 0x0A \<notin> set v" by (auto simp add: list_all_iff is_space_def)
  then have "split_lines v = [v]" by (rule split_lines_one)
  moreover have "first_value v = v"
    using sp semi q by (simp add: first_value_def Let_def dropWhile_none strip_plain)
  ultimately show ?thesis by (simp add: reread_def)
qed


text \<open>
  The parser at work: an option of \<^verbatim>\<open>DEFAULT\<close> is found in a section that lacks it, a
  reference to an unknown option is an error, a doubled percent sign is read as one, and
  \<^verbatim>\<open>__name__\<close> is the section's name.
\<close>

lemma parser_get_examples:
  "parser_get (with_names \<lparr>defaults = [''access_token'' \<mapsto> ''D1''],
                           sections = [''Token'' \<mapsto> Map.empty]\<rparr>) ''Token'' ''access_token'' =
     Inr ''D1''"
  "parser_get (with_names \<lparr>defaults = Map.empty,
                           sections = [''Token'' \<mapsto> [''access_token'' \<mapsto> ''%(x)s'']]\<rparr>)
     ''Token'' ''access_token'' = Inl InterpolationError"
  "parser_get (with_names \<lparr>defaults = Map.empty,
                           sections = [''Token'' \<mapsto> [''access_token'' \<mapsto> ''A%%1'']]\<rparr>)
     ''Token'' ''access_token'' = Inr ''A%1''"
  "parser_get (with_names \<lparr>defaults = Map.empty,
                           sections = [''Token'' \<mapsto> [''access_token'' \<mapsto> ''%(__name__)s'']]\<rparr>)
     ''Token'' ''access_token'' = Inr ''Token''"
  "parser_get \<lparr>defaults = Map.empty, sections = Map.empty\<rparr> ''Token'' ''access_token'' =
     Inl NoSectionError"
  by (simp_all add: parser_get_def with_names_def map_add_def var_ref_def lower_def
      interpolate_some.simps)

subsection \<open>Refreshing the tokens\<close>

lemma parsed_update [simp]:
  "parsed (s\<lparr>log := l\<rparr>) = parsed s"
  "parsed (s\<lparr>access_token := a\<rparr>) = parsed s"
  "parsed (s\<lparr>refresh_token := r\<rparr>) = parsed s"
  by (simp_all add: parsed_def)

lemma refresh_unreadable:
  assumes "refresh_token s = JNull" "parsed s = Inl e"
  shows "request_new_tokens_and_update E s = (Inl e, s\<lparr>log := log s @ [ConfigRead]\<rparr>)"
  using assms
  by (simp add: request_new_tokens_and_update_def set_tokens_using_config_def parser_read_def
      prog_defs)

lemma refresh_no_token:
  assumes "refresh_token s = JNull" "parsed s = Inr p"
    "parser_get p ''Token'' ''refresh_token'' = Inl e"
  shows "\<exists>s'. request_new_tokens_and_update E s =
              (Inl (SystemExit
                 ''Can't read the value of refresh_token, you may have to authorize again''), s') \<and>
            log s' = log s @ [ConfigRead]"
  using assms
  by (simp add: request_new_tokens_and_update_def set_tokens_using_config_def parser_read_def
      prog_defs)

lemma refresh_stored_token:
  assumes "refresh_token s = JNull" "parsed s = Inr p"
    "parser_get p ''Token'' ''refresh_token'' = Inr r"
  shows "\<exists>out s'. request_new_tokens_and_update E s = (out, s') \<and>
            log s' = log s @ [ConfigRead, Sent (refresh_post s (JStr r))]"
proof -
  obtain out s' where run: "request_new_tokens_and_update E s = (out, s')"
    by (cases "request_new_tokens_and_update E s")
  then have "log s' = log s @ [ConfigRead, Sent (refresh_post s (JStr r))]"
    using assms
    by (simp add: request_defs set_tokens_using_config_def parser_read_def prog_defs
        refresh_post_def split: sum.splits prod.splits if_splits) auto
  with run show ?thesis by blast
qed

lemma refresh_with_token:
  assumes "refresh_token s \<noteq> JNull"
  shows "\<exists>out s'. request_new_tokens_and_update E s = (out, s') \<and>
            log s' = log s @ [Sent (refresh_post s (refresh_token s))]"
proof -
  obtain out s' where run: "request_new_tokens_and_update E s = (out, s')"
    by (cases "request_new_tokens_and_update E s")
  then have "log s' = log s @ [Sent (refresh_post s (refresh_token s))]"
    using assms
    by (simp add: request_defs prog_defs refresh_post_def
        split: sum.splits prod.splits if_splits) auto
  with run show ?thesis by blast
qed



subsection \<open>The two tokens\<close>

lemma load_unreadable:
  "parsed s = Inl e \<Longrightarrow> set_tokens_using_config s = (Inl e, s\<lparr>log := log s @ [ConfigRead]\<rparr>)"
  by (simp add: set_tokens_using_config_def parser_read_def prog_defs)

lemma load_readable:
  "parsed s = Inr p \<Longrightarrow>
     set_tokens_using_config s =
       (Inr (), s\<lparr>log := log s @ [ConfigRead],
                  access_token := (case parser_get p ''Token'' ''access_token'' of
                                     Inr v \<Rightarrow> JStr v | Inl e \<Rightarrow> JNull),
                  refresh_token := (case parser_get p ''Token'' ''refresh_token'' of
                                      Inr v \<Rightarrow> JStr v | Inl e \<Rightarrow> JNull)\<rparr>)"
  by (simp add: set_tokens_using_config_def parser_read_def prog_defs)

text \<open>
  Claim C4, as the code has it. When the parser refuses the config file,
  \<^verbatim>\<open>set_tokens_using_config\<close> raises and sets no token. Otherwise it returns, and sets each
  token from the parser's own lookup of its option in section \<^verbatim>\<open>Token\<close>, the one
  independently of the other: the token is the value \<^verbatim>\<open>parser.get\<close> returns, and
  \<^verbatim>\<open>None\<close> when \<^verbatim>\<open>parser.get\<close> raises. So after loading both tokens are present or both
  absent exactly when both lookups return or both raise. After a PIN exchange or a refresh
  that returns, the two tokens are the \<^verbatim>\<open>access_token\<close> and \<^verbatim>\<open>refresh_token\<close> fields of
  the server's response to the request of that exchange.
\<close>

theorem tokens_after_load_and_exchange:
  "(parsed s = Inl e \<longrightarrow>
      set_tokens_using_config s = (Inl e, s\<lparr>log := log s @ [ConfigRead]\<rparr>)) \<and>
   (parsed s = Inr p \<longrightarrow>
      (\<exists>s'. set_tokens_using_config s = (Inr (), s') \<and>
         access_token s' = (case parser_get p ''Token'' ''access_token'' of
                              Inr v \<Rightarrow> JStr v | Inl e \<Rightarrow> JNull) \<and>
         refresh_token s' = (case parser_get p ''Token'' ''refresh_token'' of
                               Inr v \<Rightarrow> JStr v | Inl e \<Rightarrow> JNull) \<and>
         ((access_token s' = JNull \<longleftrightarrow> refresh_token s' = JNull) \<longleftrightarrow>
          (isl (parser_get p ''Token'' ''access_token'') \<longleftrightarrow>
           isl (parser_get p ''Token'' ''refresh_token''))))) \<and>
   (auth E s = (Inr (), s1) \<longrightarrow>
      (\<exists>response. server E (sent (log s) @ [pin_post E s]) = Inr response \<and>
         getitem response ''access_token'' = Inr (access_token s1) \<and>
         getitem response ''refresh_token'' = Inr (refresh_token s1))) \<and>
   (request_new_tokens_and_update E s = (Inr (), s2) \<longrightarrow>
      (\<exists>r response. r \<noteq> JNull \<and>
         server E (sent (log s) @ [refresh_post s r]) = Inr response \<and>
         getitem response ''access_token'' = Inr (access_token s2) \<and>
         getitem response ''refresh_token'' = Inr (refresh_token s2)))"
proof -
  have pin: "\<exists>response. server E (sent (log s) @ [pin_post E s]) = Inr response \<and>
         getitem response ''access_token'' = Inr (access_token s1) \<and>
         getitem response ''refresh_token'' = Inr (refresh_token s1)"
    if "auth E s = (Inr (), s1)"
    using that
    by (simp add: auth_def ask_pin_def do_request_def get_json_response_def prog_defs
        pin_post_def sent_append sent_Sent sent_Printed
        split: sum.splits prod.splits if_splits) fastforce
  have refresh: "\<exists>r response. r \<noteq> JNull \<and>
         server E (sent (log s) @ [refresh_post s r]) = Inr response \<and>
         getitem response ''access_token'' = Inr (access_token s2) \<and>
         getitem response ''refresh_token'' = Inr (refresh_token s2)"
    if run: "request_new_tokens_and_update E s = (Inr (), s2)"
  proof (cases "refresh_token s = JNull")
    case False
    with run show ?thesis
      by (simp add: request_new_tokens_and_update_def request_new_tokens_def do_request_def
          get_json_response_def prog_defs refresh_post_def sent_append sent_Sent
          split: sum.splits prod.splits if_splits) fastforce
  next
    case True
    show ?thesis
    proof (cases "parsed s")
      case (Inl e)
      with True run show ?thesis by (simp add: refresh_unreadable)
    next
      case p: (Inr p)
      show ?thesis
      proof (cases "parser_get p ''Token'' ''refresh_token''")
        case (Inl e)
        with True p run refresh_no_token [of s p e E] show ?thesis by auto
      next
        case (Inr v)
        with True p run
        have "\<exists>response. server E (sent (log s) @ [refresh_post s (JStr v)]) = Inr response \<and>
           getitem response ''access_token'' = Inr (access_token s2) \<and>
           getitem response ''refresh_token'' = Inr (refresh_token s2)"
          by (simp add: request_new_tokens_and_update_def request_new_tokens_def do_request_def
              get_json_response_def set_tokens_using_config_def parser_read_def prog_defs
              refresh_post_def sent_append sent_Sent sent_ConfigRead
              split: sum.splits prod.splits if_splits) auto
        then show ?thesis by blast
      qed
    qed
  qed
  have load: "\<exists>s'. set_tokens_using_config s = (Inr (), s') \<and>
         access_token s' = (case parser_get p ''Token'' ''access_token'' of
                              Inr v \<Rightarrow> JStr v | Inl e \<Rightarrow> JNull) \<and>
         refresh_token s' = (case parser_get p ''Token'' ''refresh_token'' of
                               Inr v \<Rightarrow> JStr v | Inl e \<Rightarrow> JNull) \<and>
         ((access_token s' = JNull \<longleftrightarrow> refresh_token s' = JNull) \<longleftrightarrow>
          (isl (parser_get p ''Token'' ''access_token'') \<longleftrightarrow>
           isl (parser_get p ''Token'' ''refresh_token'')))"
    if "parsed s = Inr p"
    using load_readable [OF that] by (auto split: sum.splits)
  from load_unreadable [of s e] load pin refresh show ?thesis by blast
qed

text \<open>
  The theorem at a file that the parser refuses, at a file with both tokens, and at a PIN
  exchange and a refresh that the server answers with new tokens.
\<close>

theorem tokens_after_load_and_exchange_witness:
  "set_tokens_using_config (new_imgur Malformed) =
     (Inl ParsingError, (new_imgur Malformed)\<lparr>log := [ConfigRead]\<rparr>) \<and>
   (\<exists>s'. set_tokens_using_config (new_imgur (token_file ''A1'' ''R1'')) = (Inr (), s') \<and>
      access_token s' = JStr ''A1'' \<and> refresh_token s' = JStr ''R1'') \<and>
   (\<exists>response.
      server (demo_env (by_url new_tokens failure))
        [pin_post (demo_env (by_url new_tokens failure)) (new_imgur Absent)] = Inr response \<and>
      getitem response ''access_token'' = Inr (JStr ''A2'') \<and>
      getitem response ''refresh_token'' = Inr (JStr ''R2'')) \<and>
   (\<exists>r response. r \<noteq> JNull \<and>
      server (demo_env (by_url new_tokens failure)) [refresh_post authorized r] = Inr response \<and>
      getitem response ''access_token'' = Inr (JStr ''A2'') \<and>
      getitem response ''refresh_token'' = Inr (JStr ''R2''))"
proof -
  let ?E = "demo_env (by_url new_tokens failure)"
  let ?both = "with_names \<lparr>defaults = Map.empty,
     sections = [''Token'' \<mapsto> [''access_token'' \<mapsto> ''A1'', ''refresh_token'' \<mapsto> ''R1'']]\<rparr>"
  let ?s1 = "(new_imgur Absent)\<lparr>log := [Printed (auth_msg @ auth_url (new_imgur Absent)),
                                        Sent (pin_post ?E (new_imgur Absent))],
               access_token := JStr ''A2'', refresh_token := JStr ''R2''\<rparr>"
  let ?s2 = "authorized\<lparr>log := [Sent (refresh_post authorized (JStr ''R1''))],
               access_token := JStr ''A2'', refresh_token := JStr ''R2''\<rparr>"
  have a: "auth ?E (new_imgur Absent) = (Inr (), ?s1)"
    by (simp add: auth_def ask_pin_def do_request_def get_json_response_def prog_defs
        pin_post_def sent_def demo_env_def by_url_def new_tokens_def is_success_def getitem_def
        new_imgur_def)
  have b: "request_new_tokens_and_update ?E authorized = (Inr (), ?s2)"
    by (simp add: request_defs prog_defs refresh_post_def demo_env_def by_url_def
        new_tokens_def is_success_def getitem_def authorized_def new_imgur_def)
  have c: "parsed (new_imgur Malformed) = Inl ParsingError"
    and d: "parsed (new_imgur (token_file ''A1'' ''R1'')) = Inr ?both"
    by (simp_all add: parsed_def new_imgur_def token_file_def)
  have e: "parser_get ?both ''Token'' ''access_token'' = Inr ''A1''"
    "parser_get ?both ''Token'' ''refresh_token'' = Inr ''R1''"
    by (simp_all add: parser_get_def with_names_def map_add_def interpolate_plain)
  from tokens_after_load_and_exchange [where s = "new_imgur Malformed" and e = ParsingError] c
  have 1: "set_tokens_using_config (new_imgur Malformed) =
     (Inl ParsingError, (new_imgur Malformed)\<lparr>log := [ConfigRead]\<rparr>)"
    by (simp add: new_imgur_def)
  from tokens_after_load_and_exchange
         [where s = "new_imgur (token_file ''A1'' ''R1'')" and p = ?both and E = ?E
            and ?s1.0 = ?s1 and ?s2.0 = ?s2 and e = ParsingError] d e
  have 2: "\<exists>s'. set_tokens_using_config (new_imgur (token_file ''A1'' ''R1'')) = (Inr (), s') \<and>
      access_token s' = JStr ''A1'' \<and> refresh_token s' = JStr ''R1''"
    by auto
  from tokens_after_load_and_exchange [where s = "new_imgur Absent" and E = ?E and ?s1.0 = ?s1] a
  have 3: "\<exists>response. server ?E [pin_post ?E (new_imgur Absent)] = Inr response \<and>
      getitem response ''access_token'' = Inr (JStr ''A2'') \<and>
      getitem response ''refresh_token'' = Inr (JStr ''R2'')"
    by (simp add: new_imgur_def sent_def)
  from tokens_after_load_and_exchange [where s = authorized and E = ?E and ?s2.0 = ?s2] b
  have 4: "\<exists>r response. r \<noteq> JNull \<and>
      server ?E [refresh_post authorized r] = Inr response \<and>
      getitem response ''access_token'' = Inr (JStr ''A2'') \<and>
      getitem response ''refresh_token'' = Inr (JStr ''R2'')"
    by (simp add: authorized_def new_imgur_def sent_def)
  from 1 2 3 4 show ?thesis by blast
qed

text \<open>
  A config file that holds the access token only loads as a state with exactly one of the
  two tokens set.
\<close>

theorem partial_config_counterexample:
  "access_token (snd (set_tokens_using_config
     (new_imgur (Parsed \<lparr>defaults = Map.empty,
                         sections = [''Token'' \<mapsto> [''access_token'' \<mapsto> ''A1'']]\<rparr>)))) =
     JStr ''A1'' \<and>
   refresh_token (snd (set_tokens_using_config
     (new_imgur (Parsed \<lparr>defaults = Map.empty,
                         sections = [''Token'' \<mapsto> [''access_token'' \<mapsto> ''A1'']]\<rparr>)))) =
     JNull"
  by (simp add: config_defs parsed_def with_names_def prog_defs new_imgur_def map_add_def
      interpolate_plain)

subsection \<open>Saving and loading\<close>




subsection \<open>Choosing an album\<close>

lemma print_albums_ok:
  "list_all is_album items \<Longrightarrow>
     \<exists>s'. print_albums E i items s = (Inr (i + int (length items)), s')"
proof (induction items arbitrary: i s)
  case Nil
  then show ?case by (simp add: ret_def)
next
  case (Cons a items)
  then obtain d where a: "a = JObj d" "map_of d ''title'' \<noteq> None" "map_of d ''privacy'' \<noteq> None"
    by (cases a) auto
  from Cons have rest: "list_all is_album items" by simp
  from a obtain t p where tp: "map_of d ''title'' = Some t" "map_of d ''privacy'' = Some p" by auto
  let ?s1 = "s\<lparr>log := log s @ [Printed (str_int i @ '') '' @ py_str E t @ ''('' @ py_str E p @ '')'')]\<rparr>"
  have step: "print_albums E i (a # items) s = print_albums E (i + 1) items ?s1"
    using a tp by (simp add: prog_defs getitem_def)
  from Cons.IH [OF rest, of "i + 1" ?s1] step show ?case by (auto simp: add.assoc)
qed

lemma ask_album_id_select:
  assumes "list_all is_album items"
  shows "fst (ask_album_id E (JArr items) s) =
     (case py_index (items @ [JObj [(''id'', JNull)]]) (number_typed E - 1) of
        Inl e \<Rightarrow> Inl e | Inr a \<Rightarrow> subscript a ''id'')"
proof -
  let ?s0 = "s\<lparr>log := log s @ [Printed ''Enter the number of the album you want to upload: '']\<rparr>"
  from print_albums_ok [OF assms, of E 1 ?s0]
  obtain s' where "print_albums E 1 items ?s0 = (Inr (1 + int (length items)), s')" by blast
  then show ?thesis
    by (simp add: ask_album_id_def get_album_id_def prog_defs split: sum.splits)
qed

text \<open>
  Claim C7, as the code has it, for \<^verbatim>\<open>CLIImgur.ask_album_id\<close> on a non-empty list of
  albums. Typing 1 selects the first album's \<^verbatim>\<open>id\<close>; typing the number printed for
  ``Do not move to any album'' (one past the last album) selects \<^verbatim>\<open>None\<close>; typing a
  greater number raises \<^verbatim>\<open>IndexError\<close>, so no album id is returned. The code has no
  check of the range: the number indexes the list.
\<close>

theorem album_selection:
  assumes "items \<noteq> []" "list_all is_album items"
  shows "(number_typed E = 1 \<longrightarrow>
            fst (ask_album_id E (JArr items) s) = subscript (hd items) ''id'') \<and>
         (number_typed E = int (length items) + 1 \<longrightarrow>
            fst (ask_album_id E (JArr items) s) = Inr JNull) \<and>
         (number_typed E > int (length items) + 1 \<longrightarrow>
            fst (ask_album_id E (JArr items) s) = Inl IndexError)"
  using assms
  by (cases items) (auto simp add: ask_album_id_select py_index_def getitem_def nth_append)

text \<open>The theorem at the three albums a, b and c, typing 1, 4 and 5.\<close>

theorem album_selection_witness:
  "fst (ask_album_id (demo_env (by_url new_tokens failure)) (JArr abc_albums) (new_imgur Absent)) =
     Inr (JStr ''a'') \<and>
   fst (ask_album_id ((demo_env (by_url new_tokens failure))\<lparr>number_typed := 4\<rparr>)
          (JArr abc_albums) (new_imgur Absent)) = Inr JNull \<and>
   fst (ask_album_id ((demo_env (by_url new_tokens failure))\<lparr>number_typed := 5\<rparr>)
          (JArr abc_albums) (new_imgur Absent)) = Inl IndexError"
  using album_selection [of abc_albums "demo_env (by_url new_tokens failure)" "new_imgur Absent"]
    album_selection [of abc_albums "(demo_env (by_url new_tokens failure))\<lparr>number_typed := 4\<rparr>"
      "new_imgur Absent"]
    album_selection [of abc_albums "(demo_env (by_url new_tokens failure))\<lparr>number_typed := 5\<rparr>"
      "new_imgur Absent"]
  by (simp add: abc_albums_def album_def demo_env_def getitem_def)

text \<open>
  A number below 1 is not rejected: it indexes the list from its end. Typing -1 selects
  the id of the last album, and typing 0 selects \<^verbatim>\<open>None\<close>.
\<close>

theorem album_selection_counterexample:
  "fst (ask_album_id ((demo_env (by_url new_tokens failure))\<lparr>number_typed := - 1\<rparr>)
          (JArr abc_albums) (new_imgur Absent)) = Inr (JStr ''c'') \<and>
   fst (ask_album_id ((demo_env (by_url new_tokens failure))\<lparr>number_typed := 0\<rparr>)
          (JArr abc_albums) (new_imgur Absent)) = Inr JNull"
  by (simp add: ask_album_id_select abc_albums_def album_def py_index_def getitem_def)

subsection \<open>The multipart body\<close>

lemma digit_value:
  assumes "n < 10"
  shows "of_char (digit_char n) - 48 = n"
proof -
  have "n \<in> {0, 1, 2, 3, 4, 5, 6, 7, 8, 9}"
    using assms by simp arith
  then show ?thesis by (auto simp add: digit_char_def)
qed

lemma decimal_value_snoc:
  "decimal_value (ds @ [c]) = 10 * decimal_value ds + (of_char c - 48)"
  by (simp add: decimal_value_def)

lemma decimal_value_str_nat: "decimal_value (str_nat n) = n"
proof (induction n rule: str_nat.induct)
  case (1 n)
  show ?case
  proof (cases "n < 10")
    case True
    then show ?thesis by (subst str_nat.simps) (simp add: decimal_value_def digit_value)
  next
    case False
    with 1 have "decimal_value (str_nat (n div 10)) = n div 10" by simp
    with False show ?thesis
      by (subst str_nat.simps) (simp add: decimal_value_snoc digit_value)
  qed
qed

text \<open>
  Claim C6. Whenever \<^verbatim>\<open>_encode_multipart_data\<close> returns a body and headers, for any
  fields and files, the headers hold a \<^verbatim>\<open>content-length\<close>, its value is
  \<^verbatim>\<open>str(len(body))\<close>, and read as a decimal number it is the length of the body in bytes.
\<close>

theorem content_length_is_body_length:
  assumes "encode_multipart_data E data files s = (Inr (body, headers), s')"
  shows "\<exists>v. getitem headers ''content-length'' = Inr v \<and>
             v = str_int (int (length body)) \<and> decimal_value v = length body"
proof -
  from assms have "headers =
      [(''content-type'', ''multipart/form-data; boundary='' @ random_string E 30),
       (''content-length'', str_int (int (length body)))]"
    by (auto simp add: encode_multipart_data_def Let_def prog_defs split: sum.splits prod.splits)
  then show ?thesis by (simp add: getitem_def str_int_def decimal_value_str_nat)
qed

text \<open>The theorem at one field and one readable file.\<close>

theorem content_length_is_body_length_witness:
  "\<exists>body headers s' v.
     encode_multipart_data (demo_env (by_url new_tokens failure)) [(''album_id'', JStr ''a'')]
       [(''image'', ''cat.png'')] (new_imgur Absent) = (Inr (body, headers), s') \<and>
     getitem headers ''content-length'' = Inr v \<and>
     v = str_int (int (length body)) \<and> decimal_value v = length body"
proof -
  obtain body headers s' where enc:
    "encode_multipart_data (demo_env (by_url new_tokens failure)) [(''album_id'', JStr ''a'')]
       [(''image'', ''cat.png'')] (new_imgur Absent) = (Inr (body, headers), s')"
    by (simp add: encode_multipart_data_def Let_def encode_field_def encode_file_def open_rb_def
        read_all_def prog_defs getitem_def demo_env_def)
  from content_length_is_body_length [OF enc] enc show ?thesis by blast
qed

subsection \<open>Statements that only add events\<close>

lemma only_adds_ret: "only_adds ok (ret x)"
  unfolding only_adds_def ret_def by (intro allI exI [of _ "[]"]) simp

lemma only_adds_raise: "only_adds ok (raise e)"
  unfolding only_adds_def raise_def by (intro allI exI [of _ "[]"]) simp

lemma only_adds_pure: "only_adds ok (pure r)"
  unfolding only_adds_def pure_def by (intro allI exI [of _ "[]"]) simp

lemma only_adds_gets: "only_adds ok (gets f)"
  unfolding only_adds_def gets_def by (intro allI exI [of _ "[]"]) simp

lemma only_adds_emit: "ok e \<Longrightarrow> only_adds ok (emit e)"
  unfolding only_adds_def emit_def by (intro allI exI [of _ "[e]"]) simp

lemma only_adds_bnd:
  assumes m: "only_adds ok m" and k: "\<And>x. only_adds ok (k x)"
  shows "only_adds ok (bnd m k)"
  unfolding only_adds_def
proof
  fix s
  from m obtain evs1 where 1: "snd (m s) = s\<lparr>log := log s @ evs1\<rparr>" "list_all ok evs1"
    unfolding only_adds_def by blast
  show "\<exists>evs. snd (bnd m k s) = s\<lparr>log := log s @ evs\<rparr> \<and> list_all ok evs"
  proof (cases "m s")
    case (Pair out s1)
    with 1 have s1: "s1 = s\<lparr>log := log s @ evs1\<rparr>" by simp
    show ?thesis
    proof (cases out)
      case (Inl e)
      with Pair s1 1 show ?thesis by (auto simp: bnd_def)
    next
      case (Inr x)
      from k [of x] obtain evs2
        where 2: "snd (k x s1) = s1\<lparr>log := log s1 @ evs2\<rparr>" "list_all ok evs2"
        unfolding only_adds_def by blast
      have "snd (bnd m k s) = s\<lparr>log := log s @ (evs1 @ evs2)\<rparr>"
        using Pair Inr 2 s1 by (simp add: bnd_def)
      moreover have "list_all ok (evs1 @ evs2)" using 1 2 by simp
      ultimately show ?thesis by blast
    qed
  qed
qed

lemma only_adds_mono:
  "only_adds ok m \<Longrightarrow> (\<And>e. ok e \<Longrightarrow> ok' e) \<Longrightarrow> only_adds ok' m"
  unfolding only_adds_def by (meson list.pred_mono_strong)

lemmas only_adds_intros =
  only_adds_bnd only_adds_ret only_adds_raise only_adds_pure only_adds_gets only_adds_emit

lemma only_adds_open_rb: "only_adds file_event (open_rb E f)"
  by (cases "disk E f") (simp_all add: open_rb_def only_adds_intros)

lemma only_adds_read_all: "only_adds file_event (read_all E f)"
  by (cases "disk E f") (simp_all add: read_all_def only_adds_intros)

lemma only_adds_encode_field: "only_adds file_event (encode_field E b data n)"
  by (simp add: encode_field_def only_adds_intros)

lemma only_adds_encode_file: "only_adds file_event (encode_file E b files n)"
  by (simp add: encode_file_def only_adds_intros only_adds_open_rb only_adds_read_all)

lemma only_adds_extend_each:
  "(\<And>n. only_adds ok (enc n)) \<Longrightarrow> only_adds ok (extend_each enc names lines)"
  by (induction names arbitrary: lines) (simp_all add: only_adds_intros)

lemma only_adds_encode: "only_adds file_event (encode_multipart_data E data files)"
  by (simp add: encode_multipart_data_def Let_def only_adds_intros only_adds_extend_each
      only_adds_encode_field only_adds_encode_file)

lemma only_adds_show_link: "only_adds local_event (show_link E d)"
  by (auto simp add: show_link_def intro!: only_adds_intros split: json.splits)


lemma only_addsD:
  assumes "only_adds ok m" "m s = (out, s')"
  shows "\<exists>evs. s' = s\<lparr>log := log s @ evs\<rparr> \<and> list_all ok evs"
  using assms unfolding only_adds_def by (metis snd_conv)

subsection \<open>Anonymous uploads\<close>

lemma bnd_ret: "bnd (ret x) k = k x"
  by (rule ext) (simp add: bnd_def ret_def)

lemma only_adds_case_prod:
  "(\<And>a b. only_adds ok (f a b)) \<Longrightarrow> only_adds ok (case x of (a, b) \<Rightarrow> f a b)"
  by (cases x) simp

lemma sent_Cons_Sent: "sent (Sent q # evs) = q # sent evs"
  by (simp add: sent_def)

lemma sent_Cons_store:
  "sent (ConfigRead # evs) = sent evs" "sent (ConfigWrite # evs) = sent evs"
  by (simp_all add: sent_def)

lemma sent_Nil: "sent [] = []"
  by (simp add: sent_def)

lemma sent_local: "list_all local_event evs \<Longrightarrow> sent evs = []"
proof (induction evs)
  case Nil
  then show ?case by (simp add: sent_def)
next
  case (Cons e evs)
  then show ?case by (cases e) (simp_all add: sent_def)
qed

lemma refresh_post_log [simp]: "refresh_post (s\<lparr>log := l\<rparr>) r = refresh_post s r"
  by (simp add: refresh_post_def)

lemma upload_anonymous:
  "upload E image_path True album_id =
     bnd (anonymous_request E (case image_path of None \<Rightarrow> path_typed E | Some p \<Rightarrow> p))
       (\<lambda>(body, headers). send_and_show E body headers)"
  by (simp add: upload_def anonymous_request_def ask_image_path_def bnd_ret split: option.splits)

lemma only_adds_anonymous_request: "only_adds local_event (anonymous_request E path)"
  unfolding anonymous_request_def
  by (intro only_adds_intros only_adds_case_prod
      only_adds_mono [OF only_adds_encode, of local_event]) (auto elim: file_event.elims)

lemma anonymous_request_readable:
  "(\<exists>body headers s'. anonymous_request E path s = (Inr (body, headers), s')) \<longleftrightarrow>
   (\<exists>c. disk E path = Content c)"
  by (cases "disk E path")
    (simp_all add: anonymous_request_def encode_multipart_data_def Let_def encode_file_def
      open_rb_def read_all_def prog_defs getitem_def)

text \<open>The end of \<^verbatim>\<open>upload\<close> after a reply that passes \<^verbatim>\<open>is_success\<close>, and after one that fails.\<close>

lemma send_and_show_success:
  assumes "server E (sent (log s) @ [image_post body headers]) = Inr d" "is_success d = Inr True"
  shows "send_and_show E body headers s =
           show_link E d (s\<lparr>log := log s @ [Sent (image_post body headers)]\<rparr>)"
  using assms
  by (simp add: send_and_show_def do_request_def get_json_response_def prog_defs sent_append
      sent_Sent image_post_def)

lemma send_and_show_failure:
  assumes "server E (sent (log s) @ [image_post body headers]) = Inr d" "is_success d = Inr False"
  shows "send_and_show E body headers s =
     (case request_new_tokens_and_update E (s\<lparr>log := log s @ [Sent (image_post body headers)]\<rparr>) of
        (Inl e, s2) \<Rightarrow> (Inl e, s2)
      | (Inr u, s2) \<Rightarrow>
          (case write_tokens_to_config s2 of
             (Inl e, s3) \<Rightarrow> (Inl e, s3)
           | (Inr u', s3) \<Rightarrow>
               (case server E (sent (log s3) @ [image_post body headers]) of
                  Inl e \<Rightarrow> (Inl e, s3\<lparr>log := log s3 @ [Sent (image_post body headers)]\<rparr>)
                | Inr d3 \<Rightarrow>
                    (case is_success d3 of
                       Inl e \<Rightarrow> (Inl e, s3\<lparr>log := log s3 @ [Sent (image_post body headers)]\<rparr>)
                     | Inr ok \<Rightarrow>
                         if ok
                         then show_link E d3 (s3\<lparr>log := log s3 @ [Sent (image_post body headers)]\<rparr>)
                         else (Inl (SystemExit ''Upload image error''),
                               s3\<lparr>log := log s3 @ [Sent (image_post body headers)]\<rparr>)))))"
  using assms
  by (simp add: send_and_show_def do_request_def get_json_response_def prog_defs sent_append
      sent_Sent image_post_def split: sum.splits prod.splits)

text \<open>The outcome of the refresh, from a refresh token loaded from the file or held in memory.\<close>

lemma refresh_refused:
  assumes "refresh_token s = JNull \<and> parsed s = Inr p \<and>
           parser_get p ''Token'' ''refresh_token'' = Inr v \<and> r = JStr v \<and> pre = [ConfigRead] \<or>
           refresh_token s = r \<and> r \<noteq> JNull \<and> pre = []"
    and "server E (sent (log s) @ [refresh_post s r]) = Inr d2"
    and "is_success d2 = Inr False"
  shows "\<exists>s'. request_new_tokens_and_update E s = (Inl (SystemExit ''Update tokens fail''), s') \<and>
           log s' = log s @ pre @ [Sent (refresh_post s r)]"
  using assms
  by (auto simp add: request_new_tokens_and_update_def request_new_tokens_def do_request_def
      get_json_response_def set_tokens_using_config_def parser_read_def prog_defs
      refresh_post_def sent_append sent_Sent sent_ConfigRead)

lemma refresh_granted:
  assumes "refresh_token s = JNull \<and> parsed s = Inr p \<and>
           parser_get p ''Token'' ''refresh_token'' = Inr v \<and> r = JStr v \<and> pre = [ConfigRead] \<or>
           refresh_token s = r \<and> r \<noteq> JNull \<and> pre = []"
    and "server E (sent (log s) @ [refresh_post s r]) = Inr d2"
    and "is_success d2 = Inr True"
    and "getitem d2 ''access_token'' = Inr a2" "getitem d2 ''refresh_token'' = Inr r2"
  shows "\<exists>s'. request_new_tokens_and_update E s = (Inr (), s') \<and>
           log s' = log s @ pre @ [Sent (refresh_post s r)] \<and>
           access_token s' = a2 \<and> refresh_token s' = r2 \<and>
           config_file s' = config_file s \<and> config_writable s' = config_writable s"
  using assms
  by (auto simp add: request_new_tokens_and_update_def request_new_tokens_def do_request_def
      get_json_response_def set_tokens_using_config_def parser_read_def prog_defs
      refresh_post_def sent_append sent_Sent sent_ConfigRead)

text \<open>
  Whether \<^verbatim>\<open>write_tokens_to_config\<close> returns depends on the two tokens and on the config
  file only; when it returns it has read and written the file.
\<close>

lemma write_tokens_to_config_cases:
  "write_tokens_to_config s =
     (case parsed s of
        Inl e \<Rightarrow> (Inl e, s\<lparr>log := log s @ [ConfigRead]\<rparr>)
      | Inr p \<Rightarrow>
          (case parser_set (if \<not> has_section p ''Token'' then add_section p ''Token'' else p)
                  ''Token'' ''access_token'' (access_token s) of
             Inl e \<Rightarrow> (Inl e, s\<lparr>log := log s @ [ConfigRead]\<rparr>)
           | Inr p1 \<Rightarrow>
               (case parser_set p1 ''Token'' ''refresh_token'' (refresh_token s) of
                  Inl e \<Rightarrow> (Inl e, s\<lparr>log := log s @ [ConfigRead]\<rparr>)
                | Inr p2 \<Rightarrow>
                    if config_writable s
                    then (Inr (), s\<lparr>config_file := Parsed (written p2),
                                    log := log s @ [ConfigRead, ConfigWrite]\<rparr>)
                    else (Inl IOError, s\<lparr>log := log s @ [ConfigRead]\<rparr>))))"
  by (simp add: write_tokens_to_config_def parser_read_def parser_write_def prog_defs
      split: sum.splits)

lemma write_outcome:
  assumes "access_token s = access_token u" "refresh_token s = refresh_token u"
    and "config_file s = config_file u" "config_writable s = config_writable u"
  shows "fst (write_tokens_to_config s) = fst (write_tokens_to_config u)"
  using assms by (simp add: write_tokens_to_config_cases parsed_def split: sum.split)

lemma write_log:
  "write_tokens_to_config s = (Inr (), s') \<Longrightarrow> log s' = log s @ [ConfigRead, ConfigWrite]"
  by (auto simp add: write_tokens_to_config_cases split: sum.splits if_splits)

lemma write_returns:
  assumes "fst (write_tokens_to_config u) = Inr ()"
    and "access_token s = access_token u" "refresh_token s = refresh_token u"
    and "config_file s = config_file u" "config_writable s = config_writable u"
  shows "\<exists>s'. write_tokens_to_config s = (Inr (), s') \<and>
           log s' = log s @ [ConfigRead, ConfigWrite]"
proof -
  from write_outcome [OF assms(2-5)] assms(1)
  have "fst (write_tokens_to_config s) = Inr ()" by simp
  then obtain s' where "write_tokens_to_config s = (Inr (), s')"
    by (cases "write_tokens_to_config s") simp
  with write_log [OF this] show ?thesis by blast
qed

lemma write_extends:
  "write_tokens_to_config s = (out, s') \<Longrightarrow> \<exists>ws. log s' = log s @ ws"
  by (auto simp add: write_tokens_to_config_cases split: sum.splits if_splits)

lemma resend_extends:
  assumes "(case server E reqs of
              Inl e \<Rightarrow> (Inl e, t)
            | Inr d3 \<Rightarrow>
                (case is_success d3 of
                   Inl e \<Rightarrow> (Inl e, t)
                 | Inr ok \<Rightarrow> if ok then show_link E d3 t else (Inl x, t))) = (out, s')"
  shows "\<exists>evs. log s' = log t @ evs"
proof -
  have "\<exists>evs. log s' = log t @ evs" if "show_link E d3 t = (out, s')" for d3
    using only_addsD [OF only_adds_show_link that] by auto
  with assms show ?thesis
    by (auto split: sum.splits if_splits)
qed

text \<open>
  Claim C2, as the code has it. An anonymous upload first builds the body, with print and
  file events only; the image can be read exactly when this returns, and when it does not
  the upload ends with that error and nothing is sent. Otherwise the upload request is sent.
  When the reply passes \<^verbatim>\<open>is_success\<close>, only print or file events follow: that request is
  the only one sent, the config file is neither read nor written and no token is refreshed.
  When the reply is a failing envelope the run does not end at once, it reauthorizes: the
  next event is a read of the config file when no refresh token is in memory, and the
  refresh request otherwise.

  \<^item> With no refresh token in memory: if the parser refuses the file the run ends with its
    exception, and if no refresh token loads it ends with the exit that the refresh token
    cannot be read, in both cases after the one upload request and the read.

  \<^item> With a refresh token, loaded or in memory, the refresh request with it is sent; if its
    reply fails \<^verbatim>\<open>is_success\<close> the run ends with the exit \<^verbatim>\<open>Update tokens fail\<close>.

  \<^item> If that reply gives new tokens and \<^verbatim>\<open>write_tokens_to_config\<close> returns for them, the
    config file is read and written and the upload request is sent a second time; a
    failing reply to it ends the run with the exit \<^verbatim>\<open>Upload image error\<close>.
\<close>

theorem anonymous_upload:
  assumes run: "upload E image_path True album_id s = (out, s')"
    and path: "path = (case image_path of None \<Rightarrow> path_typed E | Some x \<Rightarrow> x)"
    and up: "up = image_post body headers"
  shows
    "((\<exists>body headers s1. anonymous_request E path s = (Inr (body, headers), s1)) \<longleftrightarrow>
      (\<exists>c. disk E path = Content c)) \<and>
     (anonymous_request E path s = (Inl e, s1) \<longrightarrow>
        out = Inl e \<and> (\<exists>evs. s' = s\<lparr>log := log s @ evs\<rparr> \<and> list_all local_event evs)) \<and>
     (anonymous_request E path s = (Inr (body, headers), s1) \<and>
      server E (sent (log s) @ [up]) = Inr d \<longrightarrow>
        (\<exists>evs. s1 = s\<lparr>log := log s @ evs\<rparr> \<and> list_all local_event evs) \<and>
        (is_success d = Inr True \<longrightarrow>
           (\<exists>evs. s' = s1\<lparr>log := log s1 @ Sent up # evs\<rparr> \<and> list_all local_event evs)) \<and>
        (is_success d = Inr False \<longrightarrow>
           (\<exists>rest. log s' = log s1 @ Sent up #
              (if refresh_token s = JNull then ConfigRead
               else Sent (refresh_post s (refresh_token s))) # rest) \<and>
           (refresh_token s = JNull \<and> parsed s = Inl e1 \<longrightarrow>
              out = Inl e1 \<and> log s' = log s1 @ [Sent up, ConfigRead]) \<and>
           (refresh_token s = JNull \<and> parsed s = Inr p \<and>
            parser_get p ''Token'' ''refresh_token'' = Inl e2 \<longrightarrow>
              out = Inl (SystemExit
                ''Can't read the value of refresh_token, you may have to authorize again'') \<and>
              log s' = log s1 @ [Sent up, ConfigRead]) \<and>
           (refresh_token s = JNull \<and> parsed s = Inr p \<and>
            parser_get p ''Token'' ''refresh_token'' = Inr v \<and> r = JStr v \<and> pre = [ConfigRead] \<or>
            refresh_token s = r \<and> r \<noteq> JNull \<and> pre = [] \<longrightarrow>
              (\<exists>rest. log s' = log s1 @ Sent up # pre @ Sent (refresh_post s r) # rest) \<and>
              (server E (sent (log s) @ [up, refresh_post s r]) = Inr d2 \<longrightarrow>
                 (is_success d2 = Inr False \<longrightarrow>
                    out = Inl (SystemExit ''Update tokens fail'') \<and>
                    log s' = log s1 @ Sent up # pre @ [Sent (refresh_post s r)]) \<and>
                 (is_success d2 = Inr True \<and>
                  getitem d2 ''access_token'' = Inr a2 \<and> getitem d2 ''refresh_token'' = Inr r2 \<and>
                  fst (write_tokens_to_config (s\<lparr>access_token := a2, refresh_token := r2\<rparr>)) =
                    Inr () \<and>
                  server E (sent (log s) @ [up, refresh_post s r, up]) = Inr d3 \<and>
                  is_success d3 = Inr False \<longrightarrow>
                    out = Inl (SystemExit ''Upload image error'') \<and>
                    log s' = log s1 @ Sent up # pre @
                      [Sent (refresh_post s r), ConfigRead, ConfigWrite, Sent up])))))"
proof -
  have unreadable: "out = Inl e \<and> (\<exists>evs. s' = s\<lparr>log := log s @ evs\<rparr> \<and> list_all local_event evs)"
    if prep: "anonymous_request E path s = (Inl e, s1)"
  proof -
    from only_addsD [OF only_adds_anonymous_request prep]
    obtain evs where "s1 = s\<lparr>log := log s @ evs\<rparr>" "list_all local_event evs" by blast
    moreover from run prep path have "out = Inl e" "s' = s1"
      by (simp_all add: upload_anonymous bnd_def)
    ultimately show ?thesis by blast
  qed
  have readable:
    "(\<exists>evs. s1 = s\<lparr>log := log s @ evs\<rparr> \<and> list_all local_event evs) \<and>
        (is_success d = Inr True \<longrightarrow>
           (\<exists>evs. s' = s1\<lparr>log := log s1 @ Sent up # evs\<rparr> \<and> list_all local_event evs)) \<and>
        (is_success d = Inr False \<longrightarrow>
           (\<exists>rest. log s' = log s1 @ Sent up #
              (if refresh_token s = JNull then ConfigRead
               else Sent (refresh_post s (refresh_token s))) # rest) \<and>
           (refresh_token s = JNull \<and> parsed s = Inl e1 \<longrightarrow>
              out = Inl e1 \<and> log s' = log s1 @ [Sent up, ConfigRead]) \<and>
           (refresh_token s = JNull \<and> parsed s = Inr p \<and>
            parser_get p ''Token'' ''refresh_token'' = Inl e2 \<longrightarrow>
              out = Inl (SystemExit
                ''Can't read the value of refresh_token, you may have to authorize again'') \<and>
              log s' = log s1 @ [Sent up, ConfigRead]) \<and>
           (refresh_token s = JNull \<and> parsed s = Inr p \<and>
            parser_get p ''Token'' ''refresh_token'' = Inr v \<and> r = JStr v \<and> pre = [ConfigRead] \<or>
            refresh_token s = r \<and> r \<noteq> JNull \<and> pre = [] \<longrightarrow>
              (\<exists>rest. log s' = log s1 @ Sent up # pre @ Sent (refresh_post s r) # rest) \<and>
              (server E (sent (log s) @ [up, refresh_post s r]) = Inr d2 \<longrightarrow>
                 (is_success d2 = Inr False \<longrightarrow>
                    out = Inl (SystemExit ''Update tokens fail'') \<and>
                    log s' = log s1 @ Sent up # pre @ [Sent (refresh_post s r)]) \<and>
                 (is_success d2 = Inr True \<and>
                  getitem d2 ''access_token'' = Inr a2 \<and> getitem d2 ''refresh_token'' = Inr r2 \<and>
                  fst (write_tokens_to_config (s\<lparr>access_token := a2, refresh_token := r2\<rparr>)) =
                    Inr () \<and>
                  server E (sent (log s) @ [up, refresh_post s r, up]) = Inr d3 \<and>
                  is_success d3 = Inr False \<longrightarrow>
                    out = Inl (SystemExit ''Upload image error'') \<and>
                    log s' = log s1 @ Sent up # pre @
                      [Sent (refresh_post s r), ConfigRead, ConfigWrite, Sent up]))))"
    if prep: "anonymous_request E path s = (Inr (body, headers), s1)"
      and reply: "server E (sent (log s) @ [up]) = Inr d"
  proof -
    let ?t = "s1\<lparr>log := log s1 @ [Sent up]\<rparr>"
    from only_addsD [OF only_adds_anonymous_request prep]
    obtain evs1 where s1: "s1 = s\<lparr>log := log s @ evs1\<rparr>" and evs1: "list_all local_event evs1"
      by blast
    from s1 evs1 have sent1: "sent (log s1) = sent (log s)"
      by (simp add: sent_append sent_local)
    from s1 have same: "refresh_token ?t = refresh_token s" "parsed ?t = parsed s"
      "refresh_post ?t = refresh_post s" "refresh_post s1 = refresh_post s"
      "config_file s1 = config_file s" "config_writable s1 = config_writable s"
      by (simp_all add: fun_eq_iff)
    have sent_t: "sent (log ?t) = sent (log s) @ [up]"
      by (simp add: sent_append sent_Sent sent1)
    from run prep path have send: "send_and_show E body headers s1 = (out, s')"
      by (simp add: upload_anonymous bnd_def)
    from reply sent1 up
    have reply1: "server E (sent (log s1) @ [image_post body headers]) = Inr d" by simp
    have success: "\<exists>evs. s' = s1\<lparr>log := log s1 @ Sent up # evs\<rparr> \<and> list_all local_event evs"
      if ok: "is_success d = Inr True"
    proof -
      from send send_and_show_success [OF reply1 ok] up
      have "show_link E d ?t = (out, s')" by simp
      from only_addsD [OF only_adds_show_link this]
      obtain evs where "s' = ?t\<lparr>log := log ?t @ evs\<rparr>" "list_all local_event evs" by blast
      then show ?thesis by (intro exI [of _ evs]) simp
    qed
    have failing: "send_and_show E body headers s1 =
       (case request_new_tokens_and_update E ?t of
          (Inl e, s2) \<Rightarrow> (Inl e, s2)
        | (Inr u, s2) \<Rightarrow>
            (case write_tokens_to_config s2 of
               (Inl e, s3) \<Rightarrow> (Inl e, s3)
             | (Inr u', s3) \<Rightarrow>
                 (case server E (sent (log s3) @ [up]) of
                    Inl e \<Rightarrow> (Inl e, s3\<lparr>log := log s3 @ [Sent up]\<rparr>)
                  | Inr d3 \<Rightarrow>
                      (case is_success d3 of
                         Inl e \<Rightarrow> (Inl e, s3\<lparr>log := log s3 @ [Sent up]\<rparr>)
                       | Inr ok \<Rightarrow>
                           if ok then show_link E d3 (s3\<lparr>log := log s3 @ [Sent up]\<rparr>)
                           else (Inl (SystemExit ''Upload image error''),
                                 s3\<lparr>log := log s3 @ [Sent up]\<rparr>)))))"
      if "is_success d = Inr False"
      unfolding up by (rule send_and_show_failure [OF reply1 that])
    have later: "\<exists>rest. log s' = log s2 @ rest"
      if fail: "is_success d = Inr False"
        and refresh: "request_new_tokens_and_update E ?t = (o2, s2)" for o2 s2
    proof (cases o2)
      case (Inl e)
      with failing [OF fail] send refresh show ?thesis by simp
    next
      case o2: (Inr u)
      obtain o3 s3 where w: "write_tokens_to_config s2 = (o3, s3)"
        by (cases "write_tokens_to_config s2")
      from write_extends [OF w] obtain ws where ws: "log s3 = log s2 @ ws" by blast
      show ?thesis
      proof (cases o3)
        case (Inl e)
        with failing [OF fail] send refresh o2 w ws show ?thesis by simp
      next
        case (Inr u')
        with failing [OF fail] send refresh o2 w
        have "(case server E (sent (log s3) @ [up]) of
                 Inl e \<Rightarrow> (Inl e, s3\<lparr>log := log s3 @ [Sent up]\<rparr>)
               | Inr d3 \<Rightarrow>
                   (case is_success d3 of
                      Inl e \<Rightarrow> (Inl e, s3\<lparr>log := log s3 @ [Sent up]\<rparr>)
                    | Inr ok \<Rightarrow>
                        if ok then show_link E d3 (s3\<lparr>log := log s3 @ [Sent up]\<rparr>)
                        else (Inl (SystemExit ''Upload image error''),
                              s3\<lparr>log := log s3 @ [Sent up]\<rparr>))) = (out, s')"
          by simp
        from resend_extends [OF this] ws show ?thesis by auto
      qed
    qed
    have no_file: "out = Inl e1 \<and> log s' = log s1 @ [Sent up, ConfigRead]"
      if "is_success d = Inr False" "refresh_token s = JNull" "parsed s = Inl e1" for e1
      using failing [OF that(1)] send refresh_unreadable [of ?t e1 E] that(2,3) same
      by auto
    have no_token: "out = Inl (SystemExit
                ''Can't read the value of refresh_token, you may have to authorize again'') \<and>
              log s' = log s1 @ [Sent up, ConfigRead]"
      if "is_success d = Inr False" "refresh_token s = JNull" "parsed s = Inr p"
        "parser_get p ''Token'' ''refresh_token'' = Inl e2" for p e2
      using failing [OF that(1)] send refresh_no_token [of ?t p e2 E] that(2,3,4) same
      by auto
    have refreshing: "\<exists>rest. log s' = log s1 @ Sent up # pre @ Sent (refresh_post s r) # rest"
      if fail: "is_success d = Inr False"
        and tok: "refresh_token s = JNull \<and> parsed s = Inr p \<and>
             parser_get p ''Token'' ''refresh_token'' = Inr v \<and> r = JStr v \<and> pre = [ConfigRead] \<or>
             refresh_token s = r \<and> r \<noteq> JNull \<and> pre = []" for p v r pre
    proof -
      from tok same refresh_stored_token [of ?t p v E] refresh_with_token [of ?t E]
      obtain o2 s2 where "request_new_tokens_and_update E ?t = (o2, s2)"
        "log s2 = log ?t @ pre @ [Sent (refresh_post s r)]"
        by auto
      with later [OF fail] show ?thesis by auto
    qed
    have first: "\<exists>rest. log s' = log s1 @ Sent up #
             (if refresh_token s = JNull then ConfigRead
              else Sent (refresh_post s (refresh_token s))) # rest"
      if fail: "is_success d = Inr False"
    proof (cases "refresh_token s = JNull")
      case False
      with refreshing [OF fail, of undefined undefined "refresh_token s" "[]"]
      show ?thesis by simp
    next
      case True
      show ?thesis
      proof (cases "parsed s")
        case (Inl e1)
        with no_file [OF fail True] True show ?thesis by simp
      next
        case p: (Inr p)
        show ?thesis
        proof (cases "parser_get p ''Token'' ''refresh_token''")
          case (Inl e2)
          with no_token [OF fail True p] True show ?thesis by simp
        next
          case (Inr v)
          with refreshing [OF fail, of p v "JStr v" "[ConfigRead]"] True p
          show ?thesis by auto
        qed
      qed
    qed
    have refused: "out = Inl (SystemExit ''Update tokens fail'') \<and>
                 log s' = log s1 @ Sent up # pre @ [Sent (refresh_post s r)]"
      if fail: "is_success d = Inr False"
        and tok: "refresh_token s = JNull \<and> parsed s = Inr p \<and>
             parser_get p ''Token'' ''refresh_token'' = Inr v \<and> r = JStr v \<and> pre = [ConfigRead] \<or>
             refresh_token s = r \<and> r \<noteq> JNull \<and> pre = []"
        and reply2: "server E (sent (log s) @ [up, refresh_post s r]) = Inr d2"
        and fail2: "is_success d2 = Inr False"
    proof -
      from tok same
      have tok': "refresh_token ?t = JNull \<and> parsed ?t = Inr p \<and>
             parser_get p ''Token'' ''refresh_token'' = Inr v \<and> r = JStr v \<and> pre = [ConfigRead] \<or>
             refresh_token ?t = r \<and> r \<noteq> JNull \<and> pre = []"
        by simp
      from reply2 sent_t same
      have "server E (sent (log ?t) @ [refresh_post ?t r]) = Inr d2" by simp
      from refresh_refused [OF tok' this fail2] same failing [OF fail] send
      show ?thesis by auto
    qed
    have resent: "out = Inl (SystemExit ''Upload image error'') \<and>
                 log s' = log s1 @ Sent up # pre @
                   [Sent (refresh_post s r), ConfigRead, ConfigWrite, Sent up]"
      if fail: "is_success d = Inr False"
        and tok: "refresh_token s = JNull \<and> parsed s = Inr p \<and>
             parser_get p ''Token'' ''refresh_token'' = Inr v \<and> r = JStr v \<and> pre = [ConfigRead] \<or>
             refresh_token s = r \<and> r \<noteq> JNull \<and> pre = []"
        and reply2: "server E (sent (log s) @ [up, refresh_post s r]) = Inr d2"
        and ok2: "is_success d2 = Inr True"
        and new: "getitem d2 ''access_token'' = Inr a2" "getitem d2 ''refresh_token'' = Inr r2"
        and written: "fst (write_tokens_to_config (s\<lparr>access_token := a2, refresh_token := r2\<rparr>)) =
                        Inr ()"
        and reply3: "server E (sent (log s) @ [up, refresh_post s r, up]) = Inr d3"
        and fail3: "is_success d3 = Inr False"
    proof -
      from tok same
      have tok': "refresh_token ?t = JNull \<and> parsed ?t = Inr p \<and>
             parser_get p ''Token'' ''refresh_token'' = Inr v \<and> r = JStr v \<and> pre = [ConfigRead] \<or>
             refresh_token ?t = r \<and> r \<noteq> JNull \<and> pre = []"
        by simp
      from tok have pre: "sent pre = []"
        by (auto simp add: sent_Cons_store sent_Nil)
      from reply2 sent_t same
      have "server E (sent (log ?t) @ [refresh_post ?t r]) = Inr d2" by simp
      from refresh_granted [OF tok' this ok2 new]
      obtain s2 where s2: "request_new_tokens_and_update E ?t = (Inr (), s2)"
        "log s2 = log ?t @ pre @ [Sent (refresh_post ?t r)]"
        "access_token s2 = a2" "refresh_token s2 = r2"
        "config_file s2 = config_file ?t" "config_writable s2 = config_writable ?t"
        by blast
      from write_returns [OF written, of s2] s2 same
      obtain s3 where s3: "write_tokens_to_config s2 = (Inr (), s3)"
        "log s3 = log s2 @ [ConfigRead, ConfigWrite]"
        by auto
      from s3(2) s2(2) same sent_t pre
      have "sent (log s3) @ [up] = sent (log s) @ [up, refresh_post s r, up]"
        by (simp add: sent_append sent_Sent sent_Cons_Sent sent_Cons_store sent_Nil)
      with reply3 have "server E (sent (log s3) @ [up]) = Inr d3" by simp
      with failing [OF fail] send s2(1) s3(1) fail3
      have "out = Inl (SystemExit ''Upload image error'')" "s' = s3\<lparr>log := log s3 @ [Sent up]\<rparr>"
        by simp_all
      with s3(2) s2(2) same show ?thesis by simp
    qed
    from s1 evs1 have "\<exists>evs. s1 = s\<lparr>log := log s @ evs\<rparr> \<and> list_all local_event evs"
      by blast
    with success first no_file [of e1] no_token [of p e2] refreshing [of p v r pre] refused resent
    show ?thesis by blast
  qed
  from anonymous_request_readable [of E path s] unreadable readable show ?thesis by blast
qed

text \<open>
  The theorem at a readable image, with a server that accepts the upload, with one that
  refuses it and no config file, and with one that refuses it and both tokens in the file.
\<close>

theorem anonymous_upload_witness:
  "(\<exists>out s' evs1 evs body headers.
      upload (demo_env (by_url new_tokens uploaded)) (Some ''cat.png'') True JNull
        (new_imgur Absent) = (out, s') \<and>
      log s' = evs1 @ Sent (image_post body headers) # evs \<and>
      list_all local_event evs1 \<and> list_all local_event evs) \<and>
   (\<exists>s' evs1 body headers.
      upload (demo_env (by_url new_tokens failure)) (Some ''cat.png'') True JNull
        (new_imgur Absent) =
        (Inl (SystemExit
           ''Can't read the value of refresh_token, you may have to authorize again''), s') \<and>
      log s' = evs1 @ [Sent (image_post body headers), ConfigRead] \<and>
      list_all local_event evs1) \<and>
   (\<exists>s' evs1 body headers.
      upload (demo_env (by_url new_tokens failure)) (Some ''cat.png'') True JNull
        (new_imgur (token_file ''A1'' ''R1'')) = (Inl (SystemExit ''Upload image error''), s') \<and>
      log s' = evs1 @ [Sent (image_post body headers), ConfigRead,
                       Sent (refresh_post (new_imgur Absent) (JStr ''R1'')),
                       ConfigRead, ConfigWrite, Sent (image_post body headers)] \<and>
      list_all local_event evs1)"
proof -
  let ?ok = "demo_env (by_url new_tokens uploaded)"
  let ?no = "demo_env (by_url new_tokens failure)"
  let ?none = "\<lparr>defaults = Map.empty, sections = Map.empty\<rparr>"
  let ?both = "with_names \<lparr>defaults = Map.empty,
     sections = [''Token'' \<mapsto> [''access_token'' \<mapsto> ''A1'', ''refresh_token'' \<mapsto> ''R1'']]\<rparr>"
  have readable: "\<exists>body headers s1. anonymous_request E ''cat.png'' s = (Inr (body, headers), s1)"
    if "disk E ''cat.png'' = Content ''PNGDATA''" for E s
    using that anonymous_request_readable [of E "''cat.png''" s] by simp
  have disk: "disk ?ok ''cat.png'' = Content ''PNGDATA''" "disk ?no ''cat.png'' = Content ''PNGDATA''"
    by (simp_all add: demo_env_def)
  have first: "\<exists>out s' evs1 evs body headers.
      upload ?ok (Some ''cat.png'') True JNull (new_imgur Absent) = (out, s') \<and>
      log s' = evs1 @ Sent (image_post body headers) # evs \<and>
      list_all local_event evs1 \<and> list_all local_event evs"
  proof -
    obtain out s' where run: "upload ?ok (Some ''cat.png'') True JNull (new_imgur Absent) = (out, s')"
      by (cases "upload ?ok (Some ''cat.png'') True JNull (new_imgur Absent)")
    from readable [OF disk(1)] obtain body headers s1
      where prep: "anonymous_request ?ok ''cat.png'' (new_imgur Absent) = (Inr (body, headers), s1)"
      by blast
    have reply: "server ?ok (sent (log (new_imgur Absent)) @ [image_post body headers]) = Inr uploaded"
      "is_success uploaded = Inr True"
      by (simp_all add: demo_env_def by_url_def image_post_def uploaded_def is_success_def)
    from anonymous_upload [where path = "''cat.png''" and body = body and headers = headers
        and up = "image_post body headers" and ?s1.0 = s1 and d = uploaded and e = IOError
        and ?e1.0 = IOError and ?e2.0 = IOError and p = ?none and v = "[]" and r = JNull
        and pre = "[]" and ?d2.0 = "[]" and ?a2.0 = JNull and ?r2.0 = JNull and ?d3.0 = "[]",
        OF run _ refl]
      prep reply
    obtain evs1 evs where "s1 = (new_imgur Absent)\<lparr>log := log (new_imgur Absent) @ evs1\<rparr>"
      "list_all local_event evs1"
      "s' = s1\<lparr>log := log s1 @ Sent (image_post body headers) # evs\<rparr>" "list_all local_event evs"
      by auto
    with run show ?thesis
      by (intro exI [of _ out] exI [of _ s'] exI [of _ evs1] exI [of _ evs] exI [of _ body]
          exI [of _ headers]) (simp add: new_imgur_def)
  qed
  have second: "\<exists>s' evs1 body headers.
      upload ?no (Some ''cat.png'') True JNull (new_imgur Absent) =
        (Inl (SystemExit
           ''Can't read the value of refresh_token, you may have to authorize again''), s') \<and>
      log s' = evs1 @ [Sent (image_post body headers), ConfigRead] \<and>
      list_all local_event evs1"
  proof -
    obtain out s' where run: "upload ?no (Some ''cat.png'') True JNull (new_imgur Absent) = (out, s')"
      by (cases "upload ?no (Some ''cat.png'') True JNull (new_imgur Absent)")
    from readable [OF disk(2)] obtain body headers s1
      where prep: "anonymous_request ?no ''cat.png'' (new_imgur Absent) = (Inr (body, headers), s1)"
      by blast
    have reply: "server ?no (sent (log (new_imgur Absent)) @ [image_post body headers]) = Inr failure"
      "is_success failure = Inr False"
      by (simp_all add: demo_env_def by_url_def image_post_def failure_def is_success_def
          getitem_def)
    have conf: "refresh_token (new_imgur Absent) = JNull" "parsed (new_imgur Absent) = Inr ?none"
      "parser_get ?none ''Token'' ''refresh_token'' = Inl NoSectionError"
      by (simp_all add: new_imgur_def parsed_def parser_get_def)
    from anonymous_upload [where path = "''cat.png''" and body = body and headers = headers
        and up = "image_post body headers" and ?s1.0 = s1 and d = failure and p = ?none
        and ?e2.0 = NoSectionError and e = IOError and ?e1.0 = IOError and v = "[]"
        and r = JNull and pre = "[]" and ?d2.0 = "[]" and ?a2.0 = JNull and ?r2.0 = JNull
        and ?d3.0 = "[]", OF run _ refl]
      prep reply conf
    obtain evs1 where "s1 = (new_imgur Absent)\<lparr>log := log (new_imgur Absent) @ evs1\<rparr>"
      "list_all local_event evs1"
      "out = Inl (SystemExit
           ''Can't read the value of refresh_token, you may have to authorize again'')"
      "log s' = log s1 @ [Sent (image_post body headers), ConfigRead]"
      by auto
    with run show ?thesis
      by (intro exI [of _ s'] exI [of _ evs1] exI [of _ body] exI [of _ headers])
        (simp add: new_imgur_def)
  qed
  have third: "\<exists>s' evs1 body headers.
      upload ?no (Some ''cat.png'') True JNull (new_imgur (token_file ''A1'' ''R1'')) =
        (Inl (SystemExit ''Upload image error''), s') \<and>
      log s' = evs1 @ [Sent (image_post body headers), ConfigRead,
                       Sent (refresh_post (new_imgur Absent) (JStr ''R1'')),
                       ConfigRead, ConfigWrite, Sent (image_post body headers)] \<and>
      list_all local_event evs1"
  proof -
    let ?s = "new_imgur (token_file ''A1'' ''R1'')"
    obtain out s' where run: "upload ?no (Some ''cat.png'') True JNull ?s = (out, s')"
      by (cases "upload ?no (Some ''cat.png'') True JNull ?s")
    from readable [OF disk(2)] obtain body headers s1
      where prep: "anonymous_request ?no ''cat.png'' ?s = (Inr (body, headers), s1)"
      by blast
    let ?up = "image_post body headers"
    have reply: "server ?no (sent (log ?s) @ [?up]) = Inr failure"
      "is_success failure = Inr False"
      "server ?no (sent (log ?s) @ [?up, refresh_post ?s (JStr ''R1'')]) = Inr new_tokens"
      "is_success new_tokens = Inr True"
      "getitem new_tokens ''access_token'' = Inr (JStr ''A2'')"
      "getitem new_tokens ''refresh_token'' = Inr (JStr ''R2'')"
      "server ?no (sent (log ?s) @ [?up, refresh_post ?s (JStr ''R1''), ?up]) = Inr failure"
      by (simp_all add: demo_env_def by_url_def image_post_def refresh_post_def failure_def
          new_tokens_def is_success_def getitem_def)
    have conf: "refresh_token ?s = JNull" "parsed ?s = Inr ?both"
      "parser_get ?both ''Token'' ''refresh_token'' = Inr ''R1''"
      by (simp_all add: new_imgur_def token_file_def parsed_def parser_get_def with_names_def
          map_add_def interpolate_plain)
    have written: "fst (write_tokens_to_config
        (?s\<lparr>access_token := JStr ''A2'', refresh_token := JStr ''R2''\<rparr>)) = Inr ()"
      by (simp add: write_tokens_to_config_cases new_imgur_def token_file_def parsed_def
          with_names_def has_section_def parser_set_def no_percent_check)
    from anonymous_upload [where path = "''cat.png''" and body = body and headers = headers
        and up = "image_post body headers" and ?s1.0 = s1 and d = failure and p = ?both
        and v = "''R1''" and r = "JStr ''R1''" and pre = "[ConfigRead]" and ?d2.0 = new_tokens
        and ?a2.0 = "JStr ''A2''" and ?r2.0 = "JStr ''R2''" and ?d3.0 = failure
        and e = IOError and ?e1.0 = IOError and ?e2.0 = IOError, OF run _ refl]
      prep reply conf written
    obtain evs1 where "s1 = ?s\<lparr>log := log ?s @ evs1\<rparr>" "list_all local_event evs1"
      "out = Inl (SystemExit ''Upload image error'')"
      "log s' = log s1 @ Sent ?up # [ConfigRead] @
         [Sent (refresh_post ?s (JStr ''R1'')), ConfigRead, ConfigWrite, Sent ?up]"
      by auto
    with run show ?thesis
      by (intro exI [of _ s'] exI [of _ evs1] exI [of _ body] exI [of _ headers])
        (simp add: new_imgur_def refresh_post_def)
  qed
  from first second third show ?thesis by blast
qed

text \<open>
  An anonymous upload that the server refuses is not fatal at once: with both tokens in the
  config file, the file is read for the refresh token, the tokens are refreshed and written
  back, and the upload is sent a second time.
\<close>

theorem anonymous_upload_counterexample:
  "fst (upload (demo_env (by_url new_tokens failure)) (Some ''cat.png'') True JNull
          (new_imgur (token_file ''A1'' ''R1''))) = Inl (SystemExit ''Upload image error'') \<and>
   map req_url (sent (log (snd (upload (demo_env (by_url new_tokens failure)) (Some ''cat.png'')
          True JNull (new_imgur (token_file ''A1'' ''R1'')))))) =
     [''/3/image'', ''/oauth2/token'', ''/3/image''] \<and>
   filter touches_store (log (snd (upload (demo_env (by_url new_tokens failure)) (Some ''cat.png'')
          True JNull (new_imgur (token_file ''A1'' ''R1''))))) =
     [ConfigRead, ConfigRead, ConfigWrite]"
  by (simp add: upload_def send_and_show_def encode_multipart_data_def Let_def encode_file_def
      open_rb_def read_all_def request_defs config_defs parsed_def with_names_def written_def
      prog_defs getitem_def demo_env_def by_url_def new_imgur_def token_file_def failure_def
      new_tokens_def is_success_def map_add_def no_percent_check interpolate_plain reread_plain
      plain_token_def is_space_def)

end
